theory Spec2Isabelle
  imports Complex_Main "HOL-Library.Log_Nat"
begin

section \<open>Data model (app/models.py)\<close>

text \<open>
  The four persistent tables. Each record lists the columns of the table; the ORM
  relationship attributes are navigation only and are not columns. The \<open>created_at\<close>
  columns are left out: the operations verified below never read them (only the two
  listing queries order by them). A row that has been read from the database always
  carries its primary key, so \<open>id\<close> is an \<open>int\<close> here and the source's
  \<open>if x.id is not None\<close> guards are always taken.
\<close>

record user =
  u_id :: int
  username :: string
  email :: string

record poll =
  p_id :: int
  title :: string
  description :: string
  creator_id :: int
  is_active :: bool

record poll_option =
  o_id :: int
  o_text :: string
  o_poll_id :: int

record vote =
  v_id :: int
  v_user_id :: int
  v_poll_id :: int
  v_option_id :: int

text \<open>A \<open>Poll\<close> object with its relationships attached by hand, as \<open>get_poll\<close> builds it.\<close>

record loaded_poll = poll +
  creator :: "user option"
  poll_options :: "poll_option list"
  poll_votes :: "vote list"

text \<open>The non-persistent schemas.\<close>

record poll_create =
  pc_title :: string
  pc_description :: string
  pc_options :: "string list"

record vote_create =
  vc_poll_id :: int
  vc_option_id :: int

record option_result =
  or_option_id :: int
  or_text :: string
  vote_count :: int
  percentage :: real

record poll_results =
  pr_poll_id :: int
  pr_title :: string
  pr_description :: string
  total_votes :: int
  pr_options :: "option_result list"

text \<open>
  Every failure of the service layer is a \<open>ValueError\<close> told apart by its message:
  \<open>CreatorNotFound\<close> is "Creator not found", \<open>UserNotFound\<close> "User not found",
  \<open>PollNotFound\<close> "Poll not found", \<open>PollInactive\<close> "Poll is not active",
  \<open>OptionNotFound\<close> "Option not found", \<open>OptionPollMismatch\<close> "Option does not belong
  to this poll", \<open>UsernameExists\<close> "Username already exists" and \<open>EmailExists\<close>
  "Email already exists". \<open>IntegrityError\<close> is what the database raises at commit when a
  unique constraint of models.py is violated.
\<close>

datatype error =
  CreatorNotFound | UserNotFound | PollNotFound | PollInactive
  | OptionNotFound | OptionPollMismatch
  | UsernameExists | EmailExists
  | IntegrityError


section \<open>The store\<close>

text \<open>
  Modelled from the spec: the module \<open>app.database\<close> (\<open>get_session\<close>) and the SQL
  engine behind it are not part of the sources. The spec describes the collaborator as a
  relational store with create, read and update keyed by integer identifiers, generated
  identifiers and uniqueness constraints. A table is the list of its rows in insertion
  order; a query without \<open>ORDER BY\<close> returns the rows in that order.
\<close>

record store =
  users :: "user list"
  polls :: "poll list"
  options :: "poll_option list"
  votes :: "vote list"

definition empty_store :: store where
  "empty_store = \<lparr>users = [], polls = [], options = [], votes = []\<rparr>"

text \<open>
  Modelled from the spec: identifiers are unique and assigned by the store. The model
  takes one more than the largest identifier in the table, and 1 for an empty table, as
  an auto-increment key does when rows are never deleted.
\<close>

fun fresh_id :: "int list \<Rightarrow> int" where
  "fresh_id [] = 1"
| "fresh_id (x # xs) = max (x + 1) (fresh_id xs)"

text \<open>Modelled from the spec: \<open>.first()\<close> of a query result, the first row or nothing.\<close>

fun first :: "'a list \<Rightarrow> 'a option" where
  "first [] = None"
| "first (x # xs) = Some x"

text \<open>
  Modelled from the spec: \<open>session.get(T, id)\<close>, the read keyed by identifier. It
  returns the row with that primary key, if any.
\<close>

definition session_get_user :: "store \<Rightarrow> int \<Rightarrow> user option" where
  "session_get_user s uid = find (\<lambda>u. u_id u = uid) (users s)"

definition session_get_poll :: "store \<Rightarrow> int \<Rightarrow> poll option" where
  "session_get_poll s pid = find (\<lambda>p. p_id p = pid) (polls s)"

definition session_get_option :: "store \<Rightarrow> int \<Rightarrow> poll_option option" where
  "session_get_option s oid = find (\<lambda>x. o_id x = oid) (options s)"

text \<open>
  Modelled from the spec: \<open>session.add(row); session.commit()\<close>, the create operation
  of each table, with the uniqueness constraints that models.py declares. The \<open>users\<close> table has
  \<open>unique=True\<close> on \<open>username\<close> and on \<open>email\<close>, the \<open>votes\<close> table has the
  constraint \<open>unique_user_poll_vote\<close> on \<open>(user_id, poll_id)\<close>; an insert that breaks
  one of them raises and stores nothing.
\<close>

definition insert_user :: "store \<Rightarrow> string \<Rightarrow> string \<Rightarrow> error + store \<times> user" where
  "insert_user s name mail =
     (if filter (\<lambda>u. username u = name \<or> email u = mail) (users s) \<noteq> [] then Inl IntegrityError
      else let u = \<lparr>u_id = fresh_id (map u_id (users s)), username = name, email = mail\<rparr>
           in Inr (s\<lparr>users := users s @ [u]\<rparr>, u))"

definition insert_poll :: "store \<Rightarrow> string \<Rightarrow> string \<Rightarrow> int \<Rightarrow> store \<times> poll" where
  "insert_poll s t d cid =
     (let p = \<lparr>p_id = fresh_id (map p_id (polls s)), title = t, description = d,
                creator_id = cid, is_active = True\<rparr>
      in (s\<lparr>polls := polls s @ [p]\<rparr>, p))"

definition insert_option :: "store \<Rightarrow> string \<Rightarrow> int \<Rightarrow> store" where
  "insert_option s t pid =
     s\<lparr>options := options s @ [\<lparr>o_id = fresh_id (map o_id (options s)), o_text = t, o_poll_id = pid\<rparr>]\<rparr>"

definition insert_vote :: "store \<Rightarrow> int \<Rightarrow> int \<Rightarrow> int \<Rightarrow> error + store" where
  "insert_vote s uid pid oid =
     (if filter (\<lambda>v. v_user_id v = uid \<and> v_poll_id v = pid) (votes s) \<noteq> [] then Inl IntegrityError
      else Inr (s\<lparr>votes := votes s @
                  [\<lparr>v_id = fresh_id (map v_id (votes s)), v_user_id = uid, v_poll_id = pid,
                    v_option_id = oid\<rparr>]\<rparr>))"


section \<open>PollService (app/poll_service.py)\<close>

text \<open>
  Every operation takes the store and returns the store it leaves behind together with
  its result; a raised exception is \<open>Inl\<close>. Read-only operations return their result only.
\<close>

definition get_poll :: "store \<Rightarrow> int \<Rightarrow> loaded_poll option" where
  "get_poll s pid =
     (case session_get_poll s pid of
        None \<Rightarrow> None
      | Some p \<Rightarrow>
          Some \<lparr>p_id = p_id p, title = title p, description = description p,
                creator_id = creator_id p, is_active = is_active p,
                creator = session_get_user s (creator_id p),
                poll_options = filter (\<lambda>x. o_poll_id x = pid) (options s),
                poll_votes = filter (\<lambda>v. v_poll_id v = pid) (votes s)\<rparr>)"

text \<open>The loop \<open>for option_text in poll_data.options: session.add(Option(...))\<close>.\<close>

fun add_options :: "store \<Rightarrow> int \<Rightarrow> string list \<Rightarrow> store" where
  "add_options s pid [] = s"
| "add_options s pid (t # ts) = add_options (insert_option s t pid) pid ts"

text \<open>
  \<open>create_poll\<close> ends with \<open>return self.get_poll(poll.id) or poll\<close>. The right operand
  is the freshly inserted object, whose relationships nobody has attached.
\<close>

definition create_poll :: "store \<Rightarrow> poll_create \<Rightarrow> int \<Rightarrow> store \<times> (error + loaded_poll)" where
  "create_poll s poll_data cid =
     (case session_get_user s cid of
        None \<Rightarrow> (s, Inl CreatorNotFound)
      | Some c \<Rightarrow>
          (let (s1, p) = insert_poll s (pc_title poll_data) (pc_description poll_data) cid;
               s2 = add_options s1 (p_id p) (pc_options poll_data)
           in (s2, Inr (case get_poll s2 (p_id p) of
                          Some lp \<Rightarrow> lp
                        | None \<Rightarrow> poll.extend p
                            \<lparr>creator = None, poll_options = [], poll_votes = []\<rparr>))))"

definition cast_vote :: "store \<Rightarrow> vote_create \<Rightarrow> int \<Rightarrow> store \<times> (error + bool)" where
  "cast_vote s vote_data uid =
     (case session_get_user s uid of
        None \<Rightarrow> (s, Inl UserNotFound)
      | Some u \<Rightarrow>
     (case session_get_poll s (vc_poll_id vote_data) of
        None \<Rightarrow> (s, Inl PollNotFound)
      | Some p \<Rightarrow>
     if \<not> is_active p then (s, Inl PollInactive)
     else
     (case session_get_option s (vc_option_id vote_data) of
        None \<Rightarrow> (s, Inl OptionNotFound)
      | Some opt \<Rightarrow>
     if o_poll_id opt \<noteq> vc_poll_id vote_data then (s, Inl OptionPollMismatch)
     else
     (case first (filter (\<lambda>v. v_user_id v = uid \<and> v_poll_id v = vc_poll_id vote_data) (votes s)) of
        Some existing_vote \<Rightarrow> (s, Inr False)
      | None \<Rightarrow>
          (case insert_vote s uid (vc_poll_id vote_data) (vc_option_id vote_data) of
             Inl e \<Rightarrow> (s, Inl e)
           | Inr s' \<Rightarrow> (s', Inr True))))))"

subsection \<open>Python floats\<close>

text \<open>
  The percentage is the float expression \<open>round(vote_count / total_votes * 100, 2)\<close>.
  A Python float is an IEEE binary64 number. A finite one is a pair \<open>(m, k)\<close> of
  integers that stands for \<open>m * 2^k\<close>, and every operation returns the representable
  number nearest to the exact result, a tie going to the even mantissa. The operands here
  are row counts and the products and quotients made from them, so they are never
  negative and far below the largest finite float; signs and overflow to infinity are
  not modelled.
\<close>

type_synonym binary64 = "int \<times> int"

definition float_value :: "binary64 \<Rightarrow> real" where
  "float_value x = real_of_int (fst x) * 2 powi (snd x)"

text \<open>The integer nearest to \<open>p / q\<close> for \<open>q > 0\<close>, a tie going to the even one.\<close>

definition round_half_even :: "int \<Rightarrow> int \<Rightarrow> int" where
  "round_half_even p q =
     (let f = p div q; r = p mod q
      in if 2 * r < q then f else if q < 2 * r then f + 1 else if even f then f else f + 1)"

text \<open>
  The float nearest to \<open>p / q\<close> for \<open>p \<ge> 0\<close> and \<open>q > 0\<close>. The exponent \<open>e\<close> is the
  one with \<open>2^e \<le> p / q < 2^(e + 1)\<close>, found from the bit lengths of \<open>p\<close> and \<open>q\<close>; the
  mantissa has 53 bits, so the last place is worth \<open>2^(e - 52)\<close>, and not less than
  \<open>2^(- 1074)\<close> (the subnormal range).
\<close>

definition float_of_frac :: "int \<Rightarrow> int \<Rightarrow> binary64" where
  "float_of_frac p q =
     (if p = 0 then (0, 0)
      else let d = bitlen p - bitlen q;
               e = (if (if 0 \<le> d then q * 2 ^ nat d \<le> p else q \<le> p * 2 ^ nat (- d))
                    then d else d - 1);
               k = max e (- 1022) - 52
           in (if 0 \<le> k then round_half_even p (q * 2 ^ nat k)
               else round_half_even (p * 2 ^ nat (- k)) q, k))"

text \<open>
  \<open>a / b\<close> on two integers is the float nearest to the quotient. The divisor is never
  zero where the code divides: the call is guarded by \<open>total_votes > 0\<close>.
\<close>

definition py_truediv :: "int \<Rightarrow> int \<Rightarrow> binary64" where
  "py_truediv a b = float_of_frac a b"

text \<open>In \<open>x * 100\<close> the integer is first converted to a float.\<close>

definition float_of_int :: "int \<Rightarrow> binary64" where
  "float_of_int n = float_of_frac n 1"

definition float_mul :: "binary64 \<Rightarrow> binary64 \<Rightarrow> binary64" where
  "float_mul x y =
     (let m = fst x * fst y; k = snd x + snd y
      in if 0 \<le> k then float_of_frac (m * 2 ^ nat k) 1 else float_of_frac m (2 ^ nat (- k)))"

text \<open>
  \<open>round(x, ndigits)\<close> on a float: the exact value of \<open>x\<close> is rounded to \<open>ndigits\<close>
  decimals, a tie going to the even digit, and the result is the float nearest to that
  decimal number.
\<close>

definition py_round :: "binary64 \<Rightarrow> nat \<Rightarrow> binary64" where
  "py_round x ndigits =
     (let n = (if 0 \<le> snd x then round_half_even (fst x * 10 ^ ndigits * 2 ^ nat (snd x)) 1
               else round_half_even (fst x * 10 ^ ndigits) (2 ^ nat (- snd x)))
      in float_of_frac n (10 ^ ndigits))"

subsection \<open>Results, voting status and deactivation\<close>

text \<open>
  The loop over the options of the poll. The field \<open>percentage\<close> holds the value of the
  float; in the branch \<open>else 0\<close> it is 0.
\<close>

fun option_results_loop ::
  "store \<Rightarrow> int \<Rightarrow> poll_option list \<Rightarrow> option_result list \<Rightarrow> option_result list" where
  "option_results_loop s tot [] acc = acc"
| "option_results_loop s tot (opt # opts) acc =
     (let cnt = int (length (filter (\<lambda>v. v_option_id v = o_id opt) (votes s)));
          pct = (if tot > 0
                 then float_value (py_round (float_mul (py_truediv cnt tot) (float_of_int 100)) 2)
                 else 0)
      in option_results_loop s tot opts
           (acc @ [\<lparr>or_option_id = o_id opt, or_text = o_text opt,
                     vote_count = cnt, percentage = pct\<rparr>]))"

definition get_poll_results :: "store \<Rightarrow> int \<Rightarrow> poll_results option" where
  "get_poll_results s pid =
     (case session_get_poll s pid of
        None \<Rightarrow> None
      | Some p \<Rightarrow>
          (let tot = int (length (filter (\<lambda>v. v_poll_id v = pid) (votes s)));
               opts = filter (\<lambda>x. o_poll_id x = pid) (options s);
               option_results = option_results_loop s tot opts []
           in Some \<lparr>pr_poll_id = p_id p, pr_title = title p, pr_description = description p,
                     total_votes = tot, pr_options = option_results\<rparr>))"

definition has_user_voted :: "store \<Rightarrow> int \<Rightarrow> int \<Rightarrow> bool" where
  "has_user_voted s pid uid =
     (first (filter (\<lambda>v. v_user_id v = uid \<and> v_poll_id v = pid) (votes s)) \<noteq> None)"

text \<open>The update writes the row with the primary key \<open>poll_id\<close>.\<close>

definition deactivate_poll :: "store \<Rightarrow> int \<Rightarrow> int \<Rightarrow> store \<times> bool" where
  "deactivate_poll s pid uid =
     (case session_get_poll s pid of
        None \<Rightarrow> (s, False)
      | Some p \<Rightarrow>
          if creator_id p \<noteq> uid then (s, False)
          else (s\<lparr>polls := map (\<lambda>q. if p_id q = pid then q\<lparr>is_active := False\<rparr> else q) (polls s)\<rparr>,
                True))"


section \<open>UserService (app/poll_service.py)\<close>

definition create_user :: "store \<Rightarrow> string \<Rightarrow> string \<Rightarrow> store \<times> (error + user)" where
  "create_user s name mail =
     (case first (filter (\<lambda>u. username u = name) (users s)) of
        Some existing_user \<Rightarrow> (s, Inl UsernameExists)
      | None \<Rightarrow>
     (case first (filter (\<lambda>u. email u = mail) (users s)) of
        Some existing_email \<Rightarrow> (s, Inl EmailExists)
      | None \<Rightarrow>
          (case insert_user s name mail of
             Inl e \<Rightarrow> (s, Inl e)
           | Inr (s', u) \<Rightarrow> (s', Inr u))))"

definition get_user :: "store \<Rightarrow> int \<Rightarrow> user option" where
  "get_user s uid = session_get_user s uid"

definition get_user_by_username :: "store \<Rightarrow> string \<Rightarrow> user option" where
  "get_user_by_username s name = first (filter (\<lambda>u. username u = name) (users s))"


section \<open>Login (app/auth.py)\<close>

text \<open>
  \<open>handle_login\<close> reads two form fields, strips them, and signs the user in or creates
  the account. Here \<open>name\<close> and \<open>mail\<close> are the two values after \<open>.strip()\<close>. The
  session storage \<open>app.storage.user\<close> holds the keys \<open>user_id\<close> and \<open>username\<close>. The
  result names the notification shown. \<open>str.lower\<close> is Python's Unicode lower-casing,
  which is not part of the sources: it is the parameter \<open>lower\<close>. On text of ASCII
  characters it is \<open>ascii_lower\<close> below.
\<close>

record session =
  sess_user_id :: "int option"
  sess_username :: "string option"

datatype notification =
  EnterBoth | InvalidEmail | WelcomeBack | DifferentEmail | AccountCreated
  | UsernameTaken | EmailRegistered | ErrorCreating | LoginError

definition handle_login ::
  "(string \<Rightarrow> string) \<Rightarrow> store \<Rightarrow> session \<Rightarrow> string \<Rightarrow> string \<Rightarrow> store \<times> session \<times> notification" where
  "handle_login lower s sess name mail =
     (if name = [] \<or> mail = [] then (s, sess, EnterBoth)
      else if CHR ''@'' \<notin> set mail \<or> CHR ''.'' \<notin> set mail then (s, sess, InvalidEmail)
      else
        (case get_user_by_username s name of
           Some existing_user \<Rightarrow>
             if lower (email existing_user) = lower mail
             then (s, \<lparr>sess_user_id = Some (u_id existing_user),
                        sess_username = Some (username existing_user)\<rparr>, WelcomeBack)
             else (s, sess, DifferentEmail)
         | None \<Rightarrow>
             (case create_user s name mail of
                (s', Inr new_user) \<Rightarrow>
                  (s', \<lparr>sess_user_id = Some (u_id new_user),
                         sess_username = Some (username new_user)\<rparr>, AccountCreated)
              | (s', Inl UsernameExists) \<Rightarrow> (s', sess, UsernameTaken)
              | (s', Inl EmailExists) \<Rightarrow> (s', sess, EmailRegistered)
              | (s', Inl IntegrityError) \<Rightarrow> (s', sess, LoginError)
              | (s', Inl e) \<Rightarrow> (s', sess, ErrorCreating))))"


section \<open>Sequences of service operations\<close>

text \<open>
  The operations of the two services that write to the store. All the others
  (\<open>get_poll\<close>, \<open>get_poll_results\<close>, \<open>has_user_voted\<close>, \<open>get_user\<close>, the listings) only
  read. A state is reachable when a sequence of these operations leads to it from the
  empty store.
\<close>

datatype op =
  CreateUser string string
  | CreatePoll poll_create int
  | CastVote vote_create int
  | DeactivatePoll int int

fun step :: "store \<Rightarrow> op \<Rightarrow> store" where
  "step s (CreateUser name mail) = fst (create_user s name mail)"
| "step s (CreatePoll poll_data cid) = fst (create_poll s poll_data cid)"
| "step s (CastVote vote_data uid) = fst (cast_vote s vote_data uid)"
| "step s (DeactivatePoll pid uid) = fst (deactivate_poll s pid uid)"

definition run :: "store \<Rightarrow> op list \<Rightarrow> store" where
  "run s ops = foldl step s ops"

text \<open>
  Whether the operation \<open>a\<close>, run in state \<open>s\<close>, is a \<open>cast_vote\<close> of user \<open>uid\<close> on
  poll \<open>pid\<close> that returns \<open>True\<close>.
\<close>

fun successful_vote :: "store \<Rightarrow> op \<Rightarrow> int \<Rightarrow> int \<Rightarrow> bool" where
  "successful_vote s (CastVote vote_data u) pid uid =
     (u = uid \<and> vc_poll_id vote_data = pid \<and> snd (cast_vote s vote_data u) = Inr True)"
| "successful_vote s a pid uid = False"

text \<open>
  Referential integrity of the store: primary keys are unique, every option belongs to a
  stored poll, and every vote names a stored user, a stored poll and an option of that
  poll.
\<close>

definition store_inv :: "store \<Rightarrow> bool" where
  "store_inv s \<longleftrightarrow>
     distinct (map u_id (users s)) \<and> distinct (map p_id (polls s)) \<and>
     distinct (map o_id (options s)) \<and>
     (\<forall>x \<in> set (options s). o_poll_id x \<in> p_id ` set (polls s)) \<and>
     (\<forall>v \<in> set (votes s).
        v_user_id v \<in> u_id ` set (users s) \<and> v_poll_id v \<in> p_id ` set (polls s) \<and>
        (\<exists>x \<in> set (options s). o_id x = v_option_id v \<and> o_poll_id x = v_poll_id v))"


section \<open>Example data\<close>

text \<open>
  Two users, one poll of the first user with two options, and one vote of the second
  user; then the same with the poll deactivated by its creator.
\<close>

definition demo_ops :: "op list" where
  "demo_ops =
     [CreateUser ''alice'' ''alice@example.com'',
      CreateUser ''bob'' ''bob@localhost'',
      CreatePoll \<lparr>pc_title = ''Language'', pc_description = [],
                  pc_options = [''Python'', ''Java'']\<rparr> 1,
      CastVote \<lparr>vc_poll_id = 1, vc_option_id = 1\<rparr> 2]"

definition demo_store :: store where
  "demo_store =
     \<lparr>users = [\<lparr>u_id = 1, username = ''alice'', email = ''alice@example.com''\<rparr>,
               \<lparr>u_id = 2, username = ''bob'', email = ''bob@localhost''\<rparr>],
      polls = [\<lparr>p_id = 1, title = ''Language'', description = [], creator_id = 1,
                is_active = True\<rparr>],
      options = [\<lparr>o_id = 1, o_text = ''Python'', o_poll_id = 1\<rparr>,
                 \<lparr>o_id = 2, o_text = ''Java'', o_poll_id = 1\<rparr>],
      votes = [\<lparr>v_id = 1, v_user_id = 2, v_poll_id = 1, v_option_id = 1\<rparr>]\<rparr>"

definition closed_store :: store where
  "closed_store =
     demo_store\<lparr>polls := [\<lparr>p_id = 1, title = ''Language'', description = [], creator_id = 1,
                            is_active = False\<rparr>]\<rparr>"

text \<open>The first example with a second poll, created by the second user.\<close>

definition two_polls_store :: store where
  "two_polls_store =
     demo_store
       \<lparr>polls := polls demo_store @
          [\<lparr>p_id = 2, title = ''Editor'', description = [], creator_id = 2, is_active = True\<rparr>],
        options := options demo_store @
          [\<lparr>o_id = 3, o_text = ''vi'', o_poll_id = 2\<rparr>,
           \<lparr>o_id = 4, o_text = ''emacs'', o_poll_id = 2\<rparr>]\<rparr>"

text \<open>A browser session in which nobody is signed in.\<close>

definition no_session :: session where
  "no_session = \<lparr>sess_user_id = None, sess_username = None\<rparr>"

text \<open>
  The poll of the service's test \<open>test_get_poll_results_with_votes\<close>: four options, two
  votes for the first and one for the second.
\<close>

definition survey_ops :: "op list" where
  "survey_ops =
     [CreateUser ''testuser'' ''test@example.com'',
      CreatePoll \<lparr>pc_title = ''Favorite Programming Language'',
                  pc_description = ''Choose your favorite programming language'',
                  pc_options = [''Python'', ''JavaScript'', ''Java'', ''C++'']\<rparr> 1,
      CreateUser ''voter1'' ''voter1@example.com'',
      CreateUser ''voter2'' ''voter2@example.com'',
      CreateUser ''voter3'' ''voter3@example.com'',
      CastVote \<lparr>vc_poll_id = 1, vc_option_id = 1\<rparr> 2,
      CastVote \<lparr>vc_poll_id = 1, vc_option_id = 1\<rparr> 3,
      CastVote \<lparr>vc_poll_id = 1, vc_option_id = 2\<rparr> 4]"

definition survey_store :: store where
  "survey_store =
     \<lparr>users = [\<lparr>u_id = 1, username = ''testuser'', email = ''test@example.com''\<rparr>,
               \<lparr>u_id = 2, username = ''voter1'', email = ''voter1@example.com''\<rparr>,
               \<lparr>u_id = 3, username = ''voter2'', email = ''voter2@example.com''\<rparr>,
               \<lparr>u_id = 4, username = ''voter3'', email = ''voter3@example.com''\<rparr>],
      polls = [\<lparr>p_id = 1, title = ''Favorite Programming Language'',
                description = ''Choose your favorite programming language'',
                creator_id = 1, is_active = True\<rparr>],
      options = [\<lparr>o_id = 1, o_text = ''Python'', o_poll_id = 1\<rparr>,
                 \<lparr>o_id = 2, o_text = ''JavaScript'', o_poll_id = 1\<rparr>,
                 \<lparr>o_id = 3, o_text = ''Java'', o_poll_id = 1\<rparr>,
                 \<lparr>o_id = 4, o_text = ''C++'', o_poll_id = 1\<rparr>],
      votes = [\<lparr>v_id = 1, v_user_id = 2, v_poll_id = 1, v_option_id = 1\<rparr>,
               \<lparr>v_id = 2, v_user_id = 3, v_poll_id = 1, v_option_id = 1\<rparr>,
               \<lparr>v_id = 3, v_user_id = 4, v_poll_id = 1, v_option_id = 2\<rparr>]\<rparr>"

text \<open>
  Text made of ASCII characters only, and lower-casing of ASCII text: the letters A to Z
  move to a to z and nothing else changes. On ASCII text this is what Python's
  \<open>str.lower\<close> does.
\<close>

definition ascii_text :: "string \<Rightarrow> bool" where
  "ascii_text x = list_all (\<lambda>c. (of_char c :: nat) < 128) x"

definition ascii_lower :: "string \<Rightarrow> string" where
  "ascii_lower = map (\<lambda>c. if 65 \<le> (of_char c :: nat) \<and> (of_char c :: nat) \<le> 90
                              then char_of ((of_char c :: nat) + 32) else c)"


section \<open>Basic facts\<close>

lemma first_filter: "first (filter P xs) = find P xs"
  by (induction xs) auto

lemma first_None_iff: "first xs = None \<longleftrightarrow> xs = []"
  by (cases xs) auto

lemma fresh_id_gt: "x \<in> set xs \<Longrightarrow> x < fresh_id xs"
  by (induction xs) auto

lemma fresh_id_notin: "fresh_id xs \<notin> set xs"
  using fresh_id_gt by blast

lemma fresh_id_map_neq [simp]: "x \<in> set xs \<Longrightarrow> fresh_id (map f xs) \<noteq> f x"
  using fresh_id_gt[of "f x" "map f xs"] by auto

lemma find_Some_mem: "find P xs = Some x \<Longrightarrow> x \<in> set xs \<and> P x"
  by (induction xs) (auto split: if_splits)

lemma find_None_conv: "find P xs = None \<longleftrightarrow> (\<forall>x \<in> set xs. \<not> P x)"
  by (induction xs) auto

lemma demo_store_run: "run empty_store demo_ops = demo_store"
  unfolding demo_ops_def demo_store_def by code_simp

lemma two_polls_store_run:
  "run empty_store
     (demo_ops @ [CreatePoll \<lparr>pc_title = ''Editor'', pc_description = [],
                             pc_options = [''vi'', ''emacs'']\<rparr> 2]) = two_polls_store"
  unfolding demo_ops_def demo_store_def two_polls_store_def by code_simp

lemma survey_store_run: "run empty_store survey_ops = survey_store"
  unfolding survey_ops_def survey_store_def by code_simp

lemma closed_store_run: "run empty_store (demo_ops @ [DeactivatePoll 1 1]) = closed_store"
  unfolding demo_ops_def demo_store_def closed_store_def by code_simp


section \<open>The integrity invariant holds in every reachable state\<close>

lemma store_inv_empty: "store_inv empty_store"
  by (simp add: store_inv_def empty_store_def)

lemma create_user_inv: "store_inv s \<Longrightarrow> store_inv (fst (create_user s name mail))"
  by (auto simp: create_user_def insert_user_def store_inv_def Let_def fresh_id_notin
           split: option.splits)

lemma insert_option_inv:
  "store_inv s \<Longrightarrow> pid \<in> p_id ` set (polls s) \<Longrightarrow> store_inv (insert_option s t pid)"
  by (auto simp: insert_option_def store_inv_def fresh_id_notin)

lemma insert_option_polls: "polls (insert_option s t pid) = polls s"
  by (simp add: insert_option_def)

lemma add_options_inv:
  "store_inv s \<Longrightarrow> pid \<in> p_id ` set (polls s) \<Longrightarrow> store_inv (add_options s pid ts)"
  by (induction ts arbitrary: s) (auto simp: insert_option_inv insert_option_polls)

lemma insert_poll_inv: "store_inv s \<Longrightarrow> store_inv (fst (insert_poll s t d cid))"
  by (auto simp: insert_poll_def store_inv_def Let_def fresh_id_notin)

lemma create_poll_inv: "store_inv s \<Longrightarrow> store_inv (fst (create_poll s pd cid))"
  by (auto simp: create_poll_def split: option.splits prod.splits
      intro!: add_options_inv dest: insert_poll_inv[of s "pc_title pd" "pc_description pd" cid]
      simp: insert_poll_def Let_def)

lemma cast_vote_inv: "store_inv s \<Longrightarrow> store_inv (fst (cast_vote s vd uid))"
proof -
  assume inv: "store_inv s"
  have ins: "store_inv s'" if "insert_vote s uid (vc_poll_id vd) (vc_option_id vd) = Inr s'"
    and u: "session_get_user s uid = Some u"
    and p: "session_get_poll s (vc_poll_id vd) = Some p"
    and x: "session_get_option s (vc_option_id vd) = Some x" "o_poll_id x = vc_poll_id vd"
  for s' u p x
  proof -
    from u have 1: "uid \<in> u_id ` set (users s)"
      by (force simp: session_get_user_def dest!: find_Some_mem)
    from p have 2: "vc_poll_id vd \<in> p_id ` set (polls s)"
      by (force simp: session_get_poll_def dest!: find_Some_mem)
    from x have 3: "\<exists>y \<in> set (options s). o_id y = vc_option_id vd \<and> o_poll_id y = vc_poll_id vd"
      by (auto simp: session_get_option_def dest!: find_Some_mem)
    from that(1) have s': "s' = s\<lparr>votes := votes s @
        [\<lparr>v_id = fresh_id (map v_id (votes s)), v_user_id = uid, v_poll_id = vc_poll_id vd,
          v_option_id = vc_option_id vd\<rparr>]\<rparr>"
      by (auto simp: insert_vote_def split: if_splits)
    show ?thesis using inv 1 2 3 unfolding s' store_inv_def by auto
  qed
  show ?thesis
    using inv ins by (auto simp: cast_vote_def split: option.splits sum.splits)
qed

lemma deactivate_ids:
  "map p_id (map (\<lambda>q. if p_id q = pid then q\<lparr>is_active := False\<rparr> else q) ps) = map p_id ps"
  by (induction ps) auto

lemma store_inv_polls_cong:
  assumes "store_inv s" "users s' = users s" "map p_id (polls s') = map p_id (polls s)"
    "options s' = options s" "votes s' = votes s"
  shows "store_inv s'"
proof -
  have "p_id ` set (polls s') = p_id ` set (polls s)"
    using assms(3) by (metis set_map)
  then show ?thesis
    using assms unfolding store_inv_def by simp
qed

lemma deactivate_poll_inv: "store_inv s \<Longrightarrow> store_inv (fst (deactivate_poll s pid uid))"
  by (auto simp: deactivate_poll_def deactivate_ids split: option.splits
      intro: store_inv_polls_cong[of s])

lemma step_inv: "store_inv s \<Longrightarrow> store_inv (step s a)"
  by (cases a) (simp_all add: create_user_inv create_poll_inv cast_vote_inv deactivate_poll_inv)

lemma run_inv: "store_inv s \<Longrightarrow> store_inv (run s ops)"
  unfolding run_def by (induction ops arbitrary: s) (simp_all add: step_inv)

lemma reachable_inv: "store_inv (run empty_store ops)"
  by (simp add: run_inv store_inv_empty)


section \<open>Creating a poll\<close>

text \<open>
  Claim C7. When the creator id does not resolve to a stored user, \<open>create_poll\<close> raises
  "Creator not found" and the store it leaves behind is the store it was given: no poll
  and no option has been written.
\<close>

theorem create_poll_creator_not_found:
  "session_get_user s cid = None \<Longrightarrow> create_poll s poll_data cid = (s, Inl CreatorNotFound)"
  by (simp add: create_poll_def)

theorem create_poll_creator_not_found_witness:
  "session_get_user demo_store 999 = None \<and>
   create_poll demo_store
     \<lparr>pc_title = ''Editor'', pc_description = [], pc_options = [''vi'', ''emacs'']\<rparr> 999
   = (demo_store, Inl CreatorNotFound)"
proof -
  have h: "session_get_user demo_store 999 = None"
    by (simp add: session_get_user_def demo_store_def)
  show ?thesis
    using h create_poll_creator_not_found [OF h] by simp
qed

lemma has_user_voted_iff:
  "has_user_voted s pid uid \<longleftrightarrow> (\<exists>v \<in> set (votes s). v_user_id v = uid \<and> v_poll_id v = pid)"
  by (auto simp: has_user_voted_def first_None_iff filter_empty_conv)


section \<open>Casting a vote\<close>

text \<open>
  Claim C1. \<open>cast_vote\<close> applies its checks in one fixed order, and the first check that
  fails decides the outcome whatever the later ones would say: the user is looked up
  first ("User not found"), then the poll ("Poll not found"), then the poll's active flag
  ("Poll is not active"), then the option ("Option not found"), then the option's poll
  ("Option does not belong to this poll"), then an earlier vote of the user on the poll
  (returns \<open>False\<close>, no exception). Only when all have passed is one vote appended to
  the ledger and \<open>True\<close> returned. Every outcome but the last leaves the store as it was.
\<close>

theorem cast_vote_check_order:
  "cast_vote s vd uid =
     (if session_get_user s uid = None then (s, Inl UserNotFound)
      else if session_get_poll s (vc_poll_id vd) = None then (s, Inl PollNotFound)
      else if \<not> is_active (the (session_get_poll s (vc_poll_id vd))) then (s, Inl PollInactive)
      else if session_get_option s (vc_option_id vd) = None then (s, Inl OptionNotFound)
      else if o_poll_id (the (session_get_option s (vc_option_id vd))) \<noteq> vc_poll_id vd
        then (s, Inl OptionPollMismatch)
      else if has_user_voted s (vc_poll_id vd) uid then (s, Inr False)
      else (s\<lparr>votes := votes s @
                [\<lparr>v_id = fresh_id (map v_id (votes s)), v_user_id = uid,
                  v_poll_id = vc_poll_id vd, v_option_id = vc_option_id vd\<rparr>]\<rparr>, Inr True))"
  by (auto simp: cast_vote_def insert_vote_def has_user_voted_def first_None_iff
      split: option.splits)

theorem cast_vote_check_order_witness:
  "cast_vote closed_store \<lparr>vc_poll_id = 7, vc_option_id = 9\<rparr> 999 = (closed_store, Inl UserNotFound) \<and>
   cast_vote closed_store \<lparr>vc_poll_id = 7, vc_option_id = 9\<rparr> 2 = (closed_store, Inl PollNotFound) \<and>
   cast_vote closed_store \<lparr>vc_poll_id = 1, vc_option_id = 9\<rparr> 2 = (closed_store, Inl PollInactive) \<and>
   cast_vote demo_store \<lparr>vc_poll_id = 1, vc_option_id = 9\<rparr> 2 = (demo_store, Inl OptionNotFound) \<and>
   cast_vote two_polls_store \<lparr>vc_poll_id = 2, vc_option_id = 1\<rparr> 2 =
     (two_polls_store, Inl OptionPollMismatch) \<and>
   cast_vote demo_store \<lparr>vc_poll_id = 1, vc_option_id = 2\<rparr> 2 = (demo_store, Inr False) \<and>
   cast_vote demo_store \<lparr>vc_poll_id = 1, vc_option_id = 2\<rparr> 1 =
     (demo_store\<lparr>votes := votes demo_store @
        [\<lparr>v_id = 2, v_user_id = 1, v_poll_id = 1, v_option_id = 2\<rparr>]\<rparr>, Inr True)"
  by (simp add: cast_vote_check_order session_get_user_def session_get_poll_def
      session_get_option_def has_user_voted_def closed_store_def two_polls_store_def
      demo_store_def)

text \<open>
  Claim C6, as amended. A call whose voter id does not resolve raises "User not found",
  whatever the poll and the option are, so also on an inactive poll. When the voter
  exists and the poll id resolves to a poll whose active flag is false, \<open>cast_vote\<close>
  raises "Poll is not active", whatever the option id is and whether or not the user has
  voted before. The store is unchanged in both cases.
\<close>

theorem cast_vote_inactive_poll:
  "(session_get_user s uid = None \<longrightarrow> cast_vote s vd uid = (s, Inl UserNotFound)) \<and>
   (\<forall>u p. session_get_user s uid = Some u \<and> session_get_poll s (vc_poll_id vd) = Some p \<and>
      \<not> is_active p \<longrightarrow> cast_vote s vd uid = (s, Inl PollInactive))"
  by (simp add: cast_vote_def)

text \<open>
  The claim as first stated fails on the example with the deactivated poll: the poll is
  inactive and the voter 999 does not exist, and the call raises "User not found".
\<close>

theorem cast_vote_inactive_poll_counterexample:
  "run empty_store (demo_ops @ [DeactivatePoll 1 1]) = closed_store \<and>
   session_get_poll closed_store 1 =
     Some \<lparr>p_id = 1, title = ''Language'', description = [], creator_id = 1, is_active = False\<rparr> \<and>
   session_get_user closed_store 999 = None \<and>
   cast_vote closed_store \<lparr>vc_poll_id = 1, vc_option_id = 1\<rparr> 999 = (closed_store, Inl UserNotFound)"
  by (simp add: closed_store_run)
     (simp add: cast_vote_def session_get_user_def session_get_poll_def closed_store_def demo_store_def)

theorem cast_vote_inactive_poll_witness:
  "session_get_user closed_store 2 = Some \<lparr>u_id = 2, username = ''bob'', email = ''bob@localhost''\<rparr> \<and>
   session_get_poll closed_store 1 =
     Some \<lparr>p_id = 1, title = ''Language'', description = [], creator_id = 1, is_active = False\<rparr> \<and>
   cast_vote closed_store \<lparr>vc_poll_id = 1, vc_option_id = 99\<rparr> 2 = (closed_store, Inl PollInactive) \<and>
   session_get_user closed_store 999 = None \<and>
   cast_vote closed_store \<lparr>vc_poll_id = 1, vc_option_id = 99\<rparr> 999 = (closed_store, Inl UserNotFound)"
proof -
  have u: "session_get_user closed_store 2 = Some \<lparr>u_id = 2, username = ''bob'', email = ''bob@localhost''\<rparr>"
    by (simp add: session_get_user_def closed_store_def demo_store_def)
  have n: "session_get_user closed_store 999 = None"
    by (simp add: session_get_user_def closed_store_def demo_store_def)
  have p: "session_get_poll closed_store (vc_poll_id \<lparr>vc_poll_id = 1, vc_option_id = 99\<rparr>) =
     Some \<lparr>p_id = 1, title = ''Language'', description = [], creator_id = 1, is_active = False\<rparr>"
    by (simp add: session_get_poll_def closed_store_def demo_store_def)
  have 1: "cast_vote closed_store \<lparr>vc_poll_id = 1, vc_option_id = 99\<rparr> 2 = (closed_store, Inl PollInactive)"
    using cast_vote_inactive_poll [of closed_store 2 "\<lparr>vc_poll_id = 1, vc_option_id = 99\<rparr>"] u p
    by simp
  have 2: "cast_vote closed_store \<lparr>vc_poll_id = 1, vc_option_id = 99\<rparr> 999 = (closed_store, Inl UserNotFound)"
    using cast_vote_inactive_poll [of closed_store 999 "\<lparr>vc_poll_id = 1, vc_option_id = 99\<rparr>"] n
    by simp
  from u p 1 n 2 show ?thesis
    by simp
qed

lemma voted_user_exists:
  assumes "store_inv s" "has_user_voted s pid uid"
  shows "session_get_user s uid \<noteq> None"
proof -
  from assms(2) obtain v where "v \<in> set (votes s)" "v_user_id v = uid"
    by (auto simp: has_user_voted_iff)
  with assms(1) have "uid \<in> u_id ` set (users s)"
    by (auto simp: store_inv_def)
  then show ?thesis
    by (auto simp: session_get_user_def find_None_conv)
qed

text \<open>
  Claim C10, as amended. In any state in which user \<open>uid\<close> has a vote on poll \<open>pid\<close>, a
  further \<open>cast_vote\<close> of that user on that poll leaves the whole store unchanged, for
  every option id and whether the poll is active or not: the ledger and the option of
  the original vote stay as they were. In a reachable state, when the poll is still
  active the call returns \<open>False\<close> for every option that exists and belongs to the poll,
  also one different from the option first voted for; when the poll has been deactivated
  it raises "Poll is not active" instead.
\<close>

theorem cast_vote_repeat_rejected:
  "(has_user_voted s pid uid \<longrightarrow>
      (\<forall>oid. fst (cast_vote s \<lparr>vc_poll_id = pid, vc_option_id = oid\<rparr> uid) = s)) \<and>
   (\<forall>p x oid. has_user_voted (run empty_store ops) pid uid \<and>
      session_get_poll (run empty_store ops) pid = Some p \<and> is_active p \<and>
      session_get_option (run empty_store ops) oid = Some x \<and> o_poll_id x = pid \<longrightarrow>
      cast_vote (run empty_store ops) \<lparr>vc_poll_id = pid, vc_option_id = oid\<rparr> uid =
        (run empty_store ops, Inr False)) \<and>
   (\<forall>p oid. has_user_voted (run empty_store ops) pid uid \<and>
      session_get_poll (run empty_store ops) pid = Some p \<and> \<not> is_active p \<longrightarrow>
      cast_vote (run empty_store ops) \<lparr>vc_poll_id = pid, vc_option_id = oid\<rparr> uid =
        (run empty_store ops, Inl PollInactive))"
proof (intro conjI allI impI)
  fix oid assume "has_user_voted s pid uid"
  then show "fst (cast_vote s \<lparr>vc_poll_id = pid, vc_option_id = oid\<rparr> uid) = s"
    by (auto simp: cast_vote_def has_user_voted_def split: option.splits)
next
  fix p x oid
  assume a: "has_user_voted (run empty_store ops) pid uid \<and>
      session_get_poll (run empty_store ops) pid = Some p \<and> is_active p \<and>
      session_get_option (run empty_store ops) oid = Some x \<and> o_poll_id x = pid"
  from a have v: "has_user_voted (run empty_store ops) pid uid"
    by simp
  have "session_get_user (run empty_store ops) uid \<noteq> None"
    using reachable_inv v by (rule voted_user_exists)
  with a show "cast_vote (run empty_store ops) \<lparr>vc_poll_id = pid, vc_option_id = oid\<rparr> uid =
        (run empty_store ops, Inr False)"
    by (auto simp: cast_vote_def has_user_voted_def split: option.splits)
next
  fix p oid
  assume a: "has_user_voted (run empty_store ops) pid uid \<and>
      session_get_poll (run empty_store ops) pid = Some p \<and> \<not> is_active p"
  from a have v: "has_user_voted (run empty_store ops) pid uid"
    by simp
  have "session_get_user (run empty_store ops) uid \<noteq> None"
    using reachable_inv v by (rule voted_user_exists)
  with a show "cast_vote (run empty_store ops) \<lparr>vc_poll_id = pid, vc_option_id = oid\<rparr> uid =
        (run empty_store ops, Inl PollInactive)"
    by (auto simp: cast_vote_def split: option.splits)
qed

text \<open>
  The claim as first stated fails on the example with the deactivated poll: user 2 has
  voted on poll 1, option 2 exists and belongs to the poll, and the repeated call raises
  "Poll is not active" where the claim says it returns \<open>False\<close>.
\<close>

theorem cast_vote_repeat_rejected_counterexample:
  "run empty_store (demo_ops @ [DeactivatePoll 1 1]) = closed_store \<and>
   has_user_voted closed_store 1 2 \<and>
   session_get_option closed_store 2 = Some \<lparr>o_id = 2, o_text = ''Java'', o_poll_id = 1\<rparr> \<and>
   cast_vote closed_store \<lparr>vc_poll_id = 1, vc_option_id = 2\<rparr> 2 = (closed_store, Inl PollInactive)"
  by (simp add: closed_store_run)
     (simp add: cast_vote_def has_user_voted_def session_get_user_def session_get_poll_def
        session_get_option_def closed_store_def demo_store_def)

theorem cast_vote_repeat_rejected_witness:
  "has_user_voted (run empty_store demo_ops) 1 2 \<and>
   session_get_poll (run empty_store demo_ops) 1 =
     Some \<lparr>p_id = 1, title = ''Language'', description = [], creator_id = 1, is_active = True\<rparr> \<and>
   session_get_option (run empty_store demo_ops) 2 =
     Some \<lparr>o_id = 2, o_text = ''Java'', o_poll_id = 1\<rparr> \<and>
   cast_vote (run empty_store demo_ops) \<lparr>vc_poll_id = 1, vc_option_id = 2\<rparr> 2 =
     (run empty_store demo_ops, Inr False) \<and>
   has_user_voted closed_store 1 2 \<and>
   fst (cast_vote closed_store \<lparr>vc_poll_id = 1, vc_option_id = 77\<rparr> 2) = closed_store \<and>
   cast_vote (run empty_store (demo_ops @ [DeactivatePoll 1 1])) \<lparr>vc_poll_id = 1, vc_option_id = 2\<rparr> 2 =
     (run empty_store (demo_ops @ [DeactivatePoll 1 1]), Inl PollInactive)"
proof -
  have v: "has_user_voted (run empty_store demo_ops) 1 2"
    by (simp add: demo_store_run) (simp add: has_user_voted_def demo_store_def)
  have p: "session_get_poll (run empty_store demo_ops) 1 =
     Some \<lparr>p_id = 1, title = ''Language'', description = [], creator_id = 1, is_active = True\<rparr>"
    by (simp add: demo_store_run) (simp add: session_get_poll_def demo_store_def)
  have x: "session_get_option (run empty_store demo_ops) 2 =
     Some \<lparr>o_id = 2, o_text = ''Java'', o_poll_id = 1\<rparr>"
    by (simp add: demo_store_run) (simp add: session_get_option_def demo_store_def)
  have cv: "has_user_voted closed_store 1 2"
    by (simp add: has_user_voted_def closed_store_def demo_store_def)
  have cv': "has_user_voted (run empty_store (demo_ops @ [DeactivatePoll 1 1])) 1 2"
    using cv by (simp add: closed_store_run)
  have cp: "session_get_poll (run empty_store (demo_ops @ [DeactivatePoll 1 1])) 1 =
     Some \<lparr>p_id = 1, title = ''Language'', description = [], creator_id = 1, is_active = False\<rparr>"
    by (simp add: closed_store_run) (simp add: session_get_poll_def closed_store_def demo_store_def)
  have a: "is_active \<lparr>p_id = 1, title = ''Language'', description = [], creator_id = 1, is_active = True\<rparr>"
    by simp
  have b: "o_poll_id \<lparr>o_id = 2, o_text = ''Java'', o_poll_id = 1\<rparr> = 1"
    by simp
  have na: "\<not> is_active \<lparr>p_id = 1, title = ''Language'', description = [], creator_id = 1, is_active = False\<rparr>"
    by simp
  have 1: "cast_vote (run empty_store demo_ops) \<lparr>vc_poll_id = 1, vc_option_id = 2\<rparr> 2 =
     (run empty_store demo_ops, Inr False)"
    using cast_vote_repeat_rejected [of closed_store 1 2 demo_ops] v p a x b by blast
  have 2: "fst (cast_vote closed_store \<lparr>vc_poll_id = 1, vc_option_id = 77\<rparr> 2) = closed_store"
    using cast_vote_repeat_rejected [of closed_store 1 2 demo_ops] cv by blast
  have 3: "cast_vote (run empty_store (demo_ops @ [DeactivatePoll 1 1])) \<lparr>vc_poll_id = 1, vc_option_id = 2\<rparr> 2 =
     (run empty_store (demo_ops @ [DeactivatePoll 1 1]), Inl PollInactive)"
    using cast_vote_repeat_rejected [of closed_store 1 2 "demo_ops @ [DeactivatePoll 1 1]"] cv' cp na
    by blast
  from v p x 1 cv 2 3 show ?thesis
    by simp
qed


section \<open>Deactivating a poll\<close>

lemma find_append:
  "find P (xs @ ys) = (case find P xs of Some x \<Rightarrow> Some x | None \<Rightarrow> find P ys)"
  by (induction xs) auto

lemma add_options_polls: "polls (add_options s pid ts) = polls s"
  by (induction ts arbitrary: s) (simp_all add: insert_option_polls)

lemma add_options_users: "users (add_options s pid ts) = users s"
  by (induction ts arbitrary: s) (simp_all add: insert_option_def)

lemma add_options_votes: "votes (add_options s pid ts) = votes s"
  by (induction ts arbitrary: s) (simp_all add: insert_option_def)

lemma create_user_polls: "polls (fst (create_user s name mail)) = polls s"
  by (auto simp: create_user_def insert_user_def Let_def split: option.splits)

lemma create_poll_polls:
  "polls (fst (create_poll s pd cid)) = polls s \<or>
   (\<exists>p. polls (fst (create_poll s pd cid)) = polls s @ [p])"
  by (auto simp: create_poll_def insert_poll_def Let_def add_options_polls split: option.splits)

lemma cast_vote_polls: "polls (fst (cast_vote s vd uid)) = polls s"
  by (auto simp: cast_vote_def insert_vote_def split: option.splits)

lemma find_deactivated:
  "find (\<lambda>p. p_id p = pid) (map (\<lambda>q. if p_id q = pid' then q\<lparr>is_active := False\<rparr> else q) ps) =
   map_option (\<lambda>q. if p_id q = pid' then q\<lparr>is_active := False\<rparr> else q) (find (\<lambda>p. p_id p = pid) ps)"
  by (induction ps) auto

lemma step_keeps_inactive:
  assumes "session_get_poll s pid = Some p" "\<not> is_active p"
  shows "session_get_poll (step s a) pid = Some p"
proof (cases a)
  case (CreateUser name mail)
  then show ?thesis using assms by (simp add: session_get_poll_def create_user_polls)
next
  case (CreatePoll pd cid)
  then show ?thesis
    using assms create_poll_polls[of s pd cid]
    by (auto simp: session_get_poll_def find_append)
next
  case (CastVote vd uid)
  then show ?thesis using assms by (simp add: session_get_poll_def cast_vote_polls)
next
  case (DeactivatePoll pid' uid)
  then show ?thesis
    using assms
    by (auto simp: session_get_poll_def deactivate_poll_def find_deactivated split: option.splits)
qed

lemma run_keeps_inactive:
  "session_get_poll s pid = Some p \<Longrightarrow> \<not> is_active p \<Longrightarrow> session_get_poll (run s ops) pid = Some p"
  unfolding run_def
  by (induction ops arbitrary: s) (simp_all add: step_keeps_inactive)

text \<open>
  Claim C5. \<open>deactivate_poll\<close> returns \<open>False\<close> and leaves the whole store unchanged
  when the poll id does not resolve or the caller is not the poll's creator. Called by
  the creator it returns \<open>True\<close>, the poll row is the old one with the active flag set to
  false, and every other poll and all users, options and votes are as before. No sequence
  of service operations changes a poll that is inactive: its row, and so its flag, stays
  as it is.
\<close>

theorem deactivate_poll_ownership:
  "(session_get_poll s pid = None \<or> (\<exists>p. session_get_poll s pid = Some p \<and> creator_id p \<noteq> uid)
      \<longrightarrow> deactivate_poll s pid uid = (s, False)) \<and>
   (\<forall>p. session_get_poll s pid = Some p \<and> creator_id p = uid \<longrightarrow>
      snd (deactivate_poll s pid uid) = True \<and>
      session_get_poll (fst (deactivate_poll s pid uid)) pid = Some (p\<lparr>is_active := False\<rparr>) \<and>
      (\<forall>pid'. pid' \<noteq> pid \<longrightarrow>
         session_get_poll (fst (deactivate_poll s pid uid)) pid' = session_get_poll s pid') \<and>
      users (fst (deactivate_poll s pid uid)) = users s \<and>
      options (fst (deactivate_poll s pid uid)) = options s \<and>
      votes (fst (deactivate_poll s pid uid)) = votes s) \<and>
   (\<forall>p ops. session_get_poll s pid = Some p \<and> \<not> is_active p \<longrightarrow>
      session_get_poll (run s ops) pid = Some p)"
proof (intro conjI allI impI)
  assume "session_get_poll s pid = None \<or> (\<exists>p. session_get_poll s pid = Some p \<and> creator_id p \<noteq> uid)"
  then show "deactivate_poll s pid uid = (s, False)"
    by (auto simp: deactivate_poll_def)
next
  fix p assume a: "session_get_poll s pid = Some p \<and> creator_id p = uid"
  then show "snd (deactivate_poll s pid uid) = True"
    by (simp add: deactivate_poll_def)
  from a show "session_get_poll (fst (deactivate_poll s pid uid)) pid = Some (p\<lparr>is_active := False\<rparr>)"
    by (auto simp: deactivate_poll_def session_get_poll_def find_deactivated dest: find_Some_mem)
  from a show "users (fst (deactivate_poll s pid uid)) = users s"
    by (simp add: deactivate_poll_def)
  from a show "options (fst (deactivate_poll s pid uid)) = options s"
    by (simp add: deactivate_poll_def)
  from a show "votes (fst (deactivate_poll s pid uid)) = votes s"
    by (simp add: deactivate_poll_def)
  fix pid' assume "pid' \<noteq> pid"
  with a show "session_get_poll (fst (deactivate_poll s pid uid)) pid' = session_get_poll s pid'"
    by (cases "find (\<lambda>p. p_id p = pid') (polls s)")
       (auto simp: deactivate_poll_def session_get_poll_def find_deactivated dest: find_Some_mem)
next
  fix p ops assume "session_get_poll s pid = Some p \<and> \<not> is_active p"
  then show "session_get_poll (run s ops) pid = Some p"
    by (simp add: run_keeps_inactive)
qed


theorem deactivate_poll_ownership_witness:
  "deactivate_poll demo_store 9 1 = (demo_store, False) \<and>
   deactivate_poll demo_store 1 2 = (demo_store, False) \<and>
   snd (deactivate_poll demo_store 1 1) = True \<and>
   session_get_poll (fst (deactivate_poll demo_store 1 1)) 1 =
     Some \<lparr>p_id = 1, title = ''Language'', description = [], creator_id = 1, is_active = False\<rparr> \<and>
   votes (fst (deactivate_poll demo_store 1 1)) = votes demo_store \<and>
   session_get_poll
     (run closed_store
        [CreatePoll \<lparr>pc_title = ''Editor'', pc_description = [], pc_options = [''vi'', ''emacs'']\<rparr> 2,
         CastVote \<lparr>vc_poll_id = 1, vc_option_id = 2\<rparr> 1, DeactivatePoll 1 1, DeactivatePoll 2 2]) 1 =
     Some \<lparr>p_id = 1, title = ''Language'', description = [], creator_id = 1, is_active = False\<rparr>"
proof -
  have none: "session_get_poll demo_store 9 = None"
    by (simp add: session_get_poll_def demo_store_def)
  have some: "session_get_poll demo_store 1 =
      Some \<lparr>p_id = 1, title = ''Language'', description = [], creator_id = 1, is_active = True\<rparr>"
    by (simp add: session_get_poll_def demo_store_def)
  have closed: "session_get_poll closed_store 1 =
      Some \<lparr>p_id = 1, title = ''Language'', description = [], creator_id = 1, is_active = False\<rparr>"
    by (simp add: session_get_poll_def closed_store_def demo_store_def)
  show ?thesis
    using deactivate_poll_ownership [of demo_store 9 1] deactivate_poll_ownership [of demo_store 1 2]
      deactivate_poll_ownership [of demo_store 1 1] deactivate_poll_ownership [of closed_store 1 1]
      none some closed
    by simp
qed


section \<open>Having voted\<close>

lemma create_user_votes: "votes (fst (create_user s name mail)) = votes s"
  by (auto simp: create_user_def insert_user_def Let_def split: option.splits)

lemma create_poll_votes: "votes (fst (create_poll s pd cid)) = votes s"
  by (auto simp: create_poll_def insert_poll_def Let_def add_options_votes split: option.splits)

lemma deactivate_poll_votes: "votes (fst (deactivate_poll s pid uid)) = votes s"
  by (auto simp: deactivate_poll_def split: option.splits)

lemma cast_vote_votes:
  "votes (fst (cast_vote s vd uid)) =
     (if snd (cast_vote s vd uid) = Inr True
      then votes s @ [\<lparr>v_id = fresh_id (map v_id (votes s)), v_user_id = uid,
                       v_poll_id = vc_poll_id vd, v_option_id = vc_option_id vd\<rparr>]
      else votes s)"
  by (auto simp: cast_vote_def insert_vote_def split: option.splits)

lemma has_user_voted_step:
  "has_user_voted (step s a) pid uid \<longleftrightarrow> has_user_voted s pid uid \<or> successful_vote s a pid uid"
proof (cases a)
  case (CastVote vd u)
  then show ?thesis
    by (auto simp: has_user_voted_iff cast_vote_votes)
qed (simp_all add: has_user_voted_iff create_user_votes create_poll_votes deactivate_poll_votes)

lemma run_snoc: "run s (ops @ [a]) = step (run s ops) a"
  by (simp add: run_def)

lemma has_user_voted_run_mono:
  "has_user_voted s pid uid \<Longrightarrow> has_user_voted (run s ops) pid uid"
proof (induction ops rule: rev_induct)
  case Nil
  then show ?case by (simp add: run_def)
next
  case (snoc a ops)
  then show ?case by (simp add: run_snoc has_user_voted_step)
qed

lemma ex_less_Suc: "(\<exists>n < Suc k. Q n) \<longleftrightarrow> (\<exists>n < k. Q n) \<or> Q k"
  using less_Suc_eq by auto

lemma has_user_voted_trace:
  "has_user_voted (run empty_store ops) pid uid \<longleftrightarrow>
     (\<exists>n < length ops. successful_vote (run empty_store (take n ops)) (ops ! n) pid uid)"
proof (induction ops rule: rev_induct)
  case Nil
  show ?case by (simp add: run_def has_user_voted_def empty_store_def)
next
  case (snoc a ops)
  let ?Q = "\<lambda>xs n. successful_vote (run empty_store (take n xs)) (xs ! n) pid uid"
  have same: "?Q (ops @ [a]) n = ?Q ops n" if "n < length ops" for n
    using that by (simp add: nth_append)
  have last: "?Q (ops @ [a]) (length ops) = successful_vote (run empty_store ops) a pid uid"
    by simp
  have "(\<exists>n < length (ops @ [a]). ?Q (ops @ [a]) n) \<longleftrightarrow>
        (\<exists>n < length ops. ?Q (ops @ [a]) n) \<or> ?Q (ops @ [a]) (length ops)"
    by (simp only: length_append_singleton ex_less_Suc)
  also have "\<dots> \<longleftrightarrow> (\<exists>n < length ops. ?Q ops n) \<or> successful_vote (run empty_store ops) a pid uid"
    using same last by blast
  finally show ?case
    using snoc by (simp only: run_snoc has_user_voted_step)
qed

text \<open>
  Claim C4. Along every sequence of service operations from the empty store,
  \<open>has_user_voted\<close> for a poll and a user is true exactly when one of the operations run
  so far was a \<open>cast_vote\<close> of that user on that poll that returned \<open>True\<close>: it is
  false in every state before the first such call and true in every state after it. And
  from any state in which it is true, no sequence of operations makes it false again.
\<close>

theorem has_user_voted_monotonic:
  "(has_user_voted (run empty_store ops) pid uid \<longleftrightarrow>
      (\<exists>n < length ops. successful_vote (run empty_store (take n ops)) (ops ! n) pid uid)) \<and>
   (has_user_voted s pid uid \<longrightarrow> has_user_voted (run s ops') pid uid)"
  using has_user_voted_trace has_user_voted_run_mono by blast

theorem has_user_voted_monotonic_witness:
  "\<not> has_user_voted (run empty_store (take 3 demo_ops)) 1 2 \<and>
   successful_vote (run empty_store (take 3 demo_ops)) (demo_ops ! 3) 1 2 \<and>
   has_user_voted (run empty_store demo_ops) 1 2 \<and>
   has_user_voted
     (run (run empty_store demo_ops)
        [DeactivatePoll 1 1, CastVote \<lparr>vc_poll_id = 1, vc_option_id = 2\<rparr> 2,
         CreateUser ''carol'' ''carol@example.com'']) 1 2"
proof -
  have 1: "\<not> has_user_voted (run empty_store (take 3 demo_ops)) 1 2"
    unfolding demo_ops_def by code_simp
  have 2: "successful_vote (run empty_store (take 3 demo_ops)) (demo_ops ! 3) 1 2"
    unfolding demo_ops_def by code_simp
  have 3: "(3::nat) < length demo_ops"
    by (simp add: demo_ops_def)
  have 4: "has_user_voted (run empty_store demo_ops) 1 2"
    using has_user_voted_monotonic [of demo_ops 1 2] 2 3 by blast
  show ?thesis
    using 1 2 4 has_user_voted_monotonic [of "[]" 1 2 "run empty_store demo_ops"] by blast
qed


section \<open>The poll returned by \<open>create_poll\<close>\<close>

lemma add_options_options:
  "\<exists>new. options (add_options s pid ts) = options s @ new \<and> map o_text new = ts \<and>
         (\<forall>x \<in> set new. o_poll_id x = pid)"
proof (induction ts arbitrary: s)
  case Nil
  show ?case by simp
next
  case (Cons t ts)
  from Cons.IH[of "insert_option s t pid"] obtain new where
    new: "options (add_options (insert_option s t pid) pid ts) = options (insert_option s t pid) @ new"
      "map o_text new = ts" "\<forall>x \<in> set new. o_poll_id x = pid"
    by blast
  let ?x = "\<lparr>o_id = fresh_id (map o_id (options s)), o_text = t, o_poll_id = pid\<rparr>"
  have 1: "options (add_options s pid (t # ts)) = options s @ (?x # new)"
    using new(1) by (simp add: insert_option_def)
  have 2: "map o_text (?x # new) = t # ts"
    using new(2) by simp
  have 3: "\<forall>x \<in> set (?x # new). o_poll_id x = pid"
    using new(3) by simp
  show ?case
    by (rule exI[of _ "?x # new"]) (use 1 2 3 in blast)
qed

lemma fresh_poll_no_options:
  assumes "store_inv s"
  shows "filter (\<lambda>x. o_poll_id x = fresh_id (map p_id (polls s))) (options s) = []"
proof -
  have "o_poll_id x \<noteq> fresh_id (map p_id (polls s))" if "x \<in> set (options s)" for x
  proof -
    from assms that obtain p where "p \<in> set (polls s)" "o_poll_id x = p_id p"
      by (auto simp: store_inv_def)
    then show ?thesis
      using fresh_id_gt[of "p_id p" "map p_id (polls s)"] by simp
  qed
  then show ?thesis
    by (simp add: filter_empty_conv)
qed

lemma fresh_poll_no_votes:
  assumes "store_inv s"
  shows "filter (\<lambda>v. v_poll_id v = fresh_id (map p_id (polls s))) (votes s) = []"
proof -
  have "v_poll_id v \<noteq> fresh_id (map p_id (polls s))" if "v \<in> set (votes s)" for v
  proof -
    from assms that obtain p where "p \<in> set (polls s)" "v_poll_id v = p_id p"
      by (auto simp: store_inv_def)
    then show ?thesis
      using fresh_id_gt[of "p_id p" "map p_id (polls s)"] by simp
  qed
  then show ?thesis
    by (simp add: filter_empty_conv)
qed

lemma fresh_poll_not_found: "find (\<lambda>p. p_id p = fresh_id (map p_id (polls s))) (polls s) = None"
  by (auto simp: find_None_conv dest: fresh_id_map_neq[where f = p_id])

lemma create_poll_result:
  assumes inv: "store_inv s" and c: "session_get_user s cid = Some c"
  defines "pid \<equiv> fresh_id (map p_id (polls s))"
  shows "\<exists>new. map o_text new = pc_options pd \<and>
     snd (create_poll s pd cid) =
       Inr \<lparr>p_id = pid, title = pc_title pd, description = pc_description pd,
            creator_id = cid, is_active = True,
            creator = Some c, poll_options = new, poll_votes = []\<rparr> \<and>
     get_poll (fst (create_poll s pd cid)) pid =
       Some \<lparr>p_id = pid, title = pc_title pd, description = pc_description pd,
             creator_id = cid, is_active = True,
             creator = Some c, poll_options = new, poll_votes = []\<rparr>"
proof -
  let ?p = "\<lparr>p_id = pid, title = pc_title pd, description = pc_description pd,
             creator_id = cid, is_active = True\<rparr>"
  let ?s1 = "s\<lparr>polls := polls s @ [?p]\<rparr>"
  let ?s2 = "add_options ?s1 pid (pc_options pd)"
  have ip: "insert_poll s (pc_title pd) (pc_description pd) cid = (?s1, ?p)"
    by (simp add: insert_poll_def pid_def Let_def)
  obtain new where new: "options ?s2 = options ?s1 @ new" "map o_text new = pc_options pd"
      "\<forall>x \<in> set new. o_poll_id x = pid"
    using add_options_options[of ?s1 pid "pc_options pd"] by blast
  have opts: "filter (\<lambda>x. o_poll_id x = pid) (options ?s2) = new"
    using new(1,3) fresh_poll_no_options[OF inv] by (simp add: pid_def)
  have vts: "filter (\<lambda>v. v_poll_id v = pid) (votes ?s2) = []"
    using fresh_poll_no_votes[OF inv] by (simp add: add_options_votes pid_def)
  have pl: "session_get_poll ?s2 pid = Some ?p"
    using fresh_poll_not_found[of s]
    by (simp add: session_get_poll_def add_options_polls find_append pid_def)
  have us: "session_get_user ?s2 cid = Some c"
    using c by (simp add: session_get_user_def add_options_users)
  have gp: "get_poll ?s2 pid =
       Some \<lparr>p_id = pid, title = pc_title pd, description = pc_description pd,
             creator_id = cid, is_active = True,
             creator = Some c, poll_options = new, poll_votes = []\<rparr>"
    by (simp add: get_poll_def pl us opts vts)
  have cp: "create_poll s pd cid = (?s2, Inr (case get_poll ?s2 pid of Some lp \<Rightarrow> lp
               | None \<Rightarrow> poll.extend ?p \<lparr>creator = None, poll_options = [], poll_votes = []\<rparr>))"
    using c by (simp add: create_poll_def ip Let_def)
  show ?thesis
    using new(2) gp cp by (intro exI[of _ new]) simp
qed

text \<open>
  Claim C3. In every reachable state, \<open>create_poll\<close> called with the id of an existing
  user returns a poll whose options carry exactly the given texts, in the order of the
  input list, and whose active flag is true; it also carries the given title and
  description, the creator, and no votes, and it is what \<open>get_poll\<close> returns for its id
  in the new store. This holds for every list of option texts, so in particular for 2 to
  10 unique non-empty ones.
\<close>

theorem create_poll_options_in_order:
  assumes "s = run empty_store ops" and "session_get_user s cid = Some c"
  shows "\<exists>lp. snd (create_poll s poll_data cid) = Inr lp \<and>
     map o_text (poll_options lp) = pc_options poll_data \<and> is_active lp \<and>
     title lp = pc_title poll_data \<and> description lp = pc_description poll_data \<and>
     creator_id lp = cid \<and> creator lp = Some c \<and> poll_votes lp = [] \<and>
     get_poll (fst (create_poll s poll_data cid)) (p_id lp) = Some lp"
proof -
  have "store_inv s"
    using assms(1) by (simp add: reachable_inv)
  from create_poll_result[OF this assms(2), of poll_data] obtain new where
    "map o_text new = pc_options poll_data"
    "snd (create_poll s poll_data cid) =
       Inr \<lparr>p_id = fresh_id (map p_id (polls s)), title = pc_title poll_data,
            description = pc_description poll_data, creator_id = cid, is_active = True,
            creator = Some c, poll_options = new, poll_votes = []\<rparr>"
    "get_poll (fst (create_poll s poll_data cid)) (fresh_id (map p_id (polls s))) =
       Some \<lparr>p_id = fresh_id (map p_id (polls s)), title = pc_title poll_data,
            description = pc_description poll_data, creator_id = cid, is_active = True,
            creator = Some c, poll_options = new, poll_votes = []\<rparr>"
    by blast
  then show ?thesis
    by simp
qed

theorem create_poll_options_in_order_witness:
  "demo_store = run empty_store demo_ops \<and>
   session_get_user demo_store 2 = Some \<lparr>u_id = 2, username = ''bob'', email = ''bob@localhost''\<rparr> \<and>
   (\<exists>lp. snd (create_poll demo_store
              \<lparr>pc_title = ''Editor'', pc_description = [], pc_options = [''vi'', ''emacs'', ''ed'']\<rparr> 2) = Inr lp \<and>
      map o_text (poll_options lp) = [''vi'', ''emacs'', ''ed''] \<and> is_active lp)"
proof -
  have r: "demo_store = run empty_store demo_ops"
    by (simp add: demo_store_run)
  have u: "session_get_user demo_store 2 = Some \<lparr>u_id = 2, username = ''bob'', email = ''bob@localhost''\<rparr>"
    by (simp add: session_get_user_def demo_store_def)
  from create_poll_options_in_order [OF r u,
      of "\<lparr>pc_title = ''Editor'', pc_description = [], pc_options = [''vi'', ''emacs'', ''ed'']\<rparr>"]
  have "\<exists>lp. snd (create_poll demo_store
              \<lparr>pc_title = ''Editor'', pc_description = [], pc_options = [''vi'', ''emacs'', ''ed'']\<rparr> 2) = Inr lp \<and>
      map o_text (poll_options lp) = [''vi'', ''emacs'', ''ed''] \<and> is_active lp"
    by auto
  with r u show ?thesis
    by blast
qed


section \<open>Float arithmetic\<close>

text \<open>
  \<open>round_half_even\<close> is within one half of the quotient, and \<open>float_of_frac\<close> returns,
  for a quotient in the normal range, a 53-bit mantissa whose value is within half a unit
  in the last place of the quotient: the nearest binary64 number.
\<close>

lemma round_half_even_error:
  assumes "0 < q"
  shows "\<bar>real_of_int p / real_of_int q - real_of_int (round_half_even p q)\<bar> \<le> 1 / 2"
proof -
  have pq: "real_of_int p = real_of_int (p div q) * real_of_int q + real_of_int (p mod q)"
    by (metis of_int_add of_int_mult div_mult_mod_eq)
  have r: "0 \<le> p mod q" "p mod q < q"
    using assms by simp_all
  have d: "real_of_int p / real_of_int q =
      real_of_int (p div q) + real_of_int (p mod q) / real_of_int q"
    using assms pq by (simp add: field_simps)
  show ?thesis
    using assms r unfolding round_half_even_def Let_def d
    by (auto simp: field_simps abs_if)
qed

lemma bitlen_powi_bounds:
  assumes "0 < p"
  shows "2 powi (bitlen p - 1) \<le> real_of_int p" "real_of_int p < 2 powi (bitlen p)"
proof -
  from bitlen_bounds[OF assms] have b: "2 ^ nat (bitlen p - 1) \<le> p" "p < 2 ^ nat (bitlen p)"
    by simp_all
  have pos: "1 \<le> bitlen p"
    using assms by (simp add: bitlen_alt_def)
  have "real_of_int (2 ^ nat (bitlen p - 1)) \<le> real_of_int p"
    using b(1) of_int_le_iff by blast
  then show "2 powi (bitlen p - 1) \<le> real_of_int p"
    using pos by (simp add: power_int_def)
  have "real_of_int p < real_of_int (2 ^ nat (bitlen p))"
    using b(2) of_int_less_iff by blast
  then show "real_of_int p < 2 powi (bitlen p)"
    using pos by (simp add: power_int_def)
qed

lemma scale_test:
  "(if 0 \<le> d then q * 2 ^ nat d \<le> p else q \<le> p * 2 ^ nat (- d)) \<longleftrightarrow>
   real_of_int q * 2 powi d \<le> real_of_int p"
proof (cases "0 \<le> d")
  case True
  have "real_of_int (q * 2 ^ nat d) = real_of_int q * 2 ^ nat d"
    by simp
  then have "q * 2 ^ nat d \<le> p \<longleftrightarrow> real_of_int q * 2 ^ nat d \<le> real_of_int p"
    by (metis of_int_le_iff)
  with True show ?thesis
    by (simp add: power_int_def)
next
  case False
  have "real_of_int (p * 2 ^ nat (- d)) = real_of_int p * 2 ^ nat (- d)"
    by simp
  then have "q \<le> p * 2 ^ nat (- d) \<longleftrightarrow> real_of_int q \<le> real_of_int p * 2 ^ nat (- d)"
    by (metis of_int_le_iff)
  with False show ?thesis
    by (simp add: power_int_def field_simps)
qed

lemma float_exponent:
  assumes "0 < p" "0 < q"
  defines "d \<equiv> bitlen p - bitlen q"
  defines "e \<equiv> (if (if 0 \<le> d then q * 2 ^ nat d \<le> p else q \<le> p * 2 ^ nat (- d)) then d else d - 1)"
  shows "2 powi e \<le> real_of_int p / real_of_int q" "real_of_int p / real_of_int q < 2 powi (e + 1)"
proof -
  let ?x = "real_of_int p / real_of_int q"
  have q0: "0 < real_of_int q" using assms by simp
  note bp = bitlen_powi_bounds[OF assms(1)] and bq = bitlen_powi_bounds[OF assms(2)]
  have up: "?x < 2 powi (d + 1)"
  proof -
    have "real_of_int p < 2 powi (bitlen p)" by (rule bp(2))
    also have "\<dots> = 2 powi (d + 1) * 2 powi (bitlen q - 1)"
      by (simp add: d_def power_int_add[symmetric])
    also have "\<dots> \<le> 2 powi (d + 1) * real_of_int q"
      using bq(1) by (simp add: mult_left_mono)
    finally show ?thesis using q0 by (simp add: field_simps)
  qed
  have lo: "2 powi (d - 1) < ?x"
  proof -
    have "2 powi (d - 1) * real_of_int q < 2 powi (d - 1) * 2 powi (bitlen q)"
      using bq(2) by (simp add: mult_strict_left_mono)
    also have "\<dots> = 2 powi (bitlen p - 1)"
      by (simp add: d_def power_int_add[symmetric])
    also have "\<dots> \<le> real_of_int p" by (rule bp(1))
    finally show ?thesis using q0 by (simp add: field_simps)
  qed
  have c: "(if 0 \<le> d then q * 2 ^ nat d \<le> p else q \<le> p * 2 ^ nat (- d)) \<longleftrightarrow> 2 powi d \<le> ?x"
    using q0 by (simp only: scale_test) (simp add: field_simps)
  show "2 powi e \<le> ?x"
    using c lo unfolding e_def by (auto simp: less_imp_le)
  show "?x < 2 powi (e + 1)"
    using c up unfolding e_def by auto
qed

lemma power_int_2_mono:
  assumes "2 powi a \<le> (x::real)" "x < 2 powi b"
  shows "a < b"
proof (rule ccontr)
  assume "\<not> a < b"
  then have "(2::real) powi b \<le> 2 powi a"
    by (intro power_int_increasing) simp_all
  with assms show False
    by simp
qed

lemma near_int_bounds:
  assumes "\<bar>y - real_of_int m\<bar> \<le> 1 / 2"
  shows "real_of_int a \<le> y \<Longrightarrow> a \<le> m" and "y < real_of_int b \<Longrightarrow> m \<le> b"
  using assms by linarith+

lemma float_of_frac_nearest:
  assumes "0 < p" "0 < q" and normal: "2 powi (- 1022) \<le> real_of_int p / real_of_int q"
  shows "2 ^ 52 \<le> fst (float_of_frac p q)" "fst (float_of_frac p q) \<le> 2 ^ 53"
    "\<bar>real_of_int p / real_of_int q - float_value (float_of_frac p q)\<bar>
       \<le> 2 powi (snd (float_of_frac p q)) / 2"
proof -
  let ?x = "real_of_int p / real_of_int q"
  define d where "d = bitlen p - bitlen q"
  define e where "e = (if (if 0 \<le> d then q * 2 ^ nat d \<le> p else q \<le> p * 2 ^ nat (- d)) then d else d - 1)"
  define k where "k = e - 52"
  define m where "m = (if 0 \<le> k then round_half_even p (q * 2 ^ nat k)
                       else round_half_even (p * 2 ^ nat (- k)) q)"
  have ex: "2 powi e \<le> ?x" "?x < 2 powi (e + 1)"
    using float_exponent[OF assms(1,2)] unfolding e_def d_def by simp_all
  have "- 1022 < e + 1"
    using normal ex(2) by (rule power_int_2_mono)
  then have emax: "max e (- 1022) = e"
    by simp
  have ff: "float_of_frac p q = (m, k)"
    unfolding float_of_frac_def m_def k_def
    using assms(1) emax unfolding e_def d_def by (simp add: Let_def)
  let ?y = "?x / 2 powi k"
  have ym: "\<bar>?y - real_of_int m\<bar> \<le> 1 / 2"
  proof (cases "0 \<le> k")
    case True
    have pw: "(2::real) powi k = 2 ^ nat k"
      using True by (simp add: power_int_def)
    have y: "?y = real_of_int p / real_of_int (q * 2 ^ nat k)"
      by (simp add: pw)
    have mm: "m = round_half_even p (q * 2 ^ nat k)"
      using True by (simp add: m_def)
    have "0 < q * 2 ^ nat k"
      using assms(2) by simp
    then show ?thesis
      unfolding y mm by (rule round_half_even_error)
  next
    case False
    have pw: "(2::real) powi k = 1 / 2 ^ nat (- k)"
      using False by (simp add: power_int_def field_simps)
    have y: "?y = real_of_int (p * 2 ^ nat (- k)) / real_of_int q"
      by (simp add: pw)
    have mm: "m = round_half_even (p * 2 ^ nat (- k)) q"
      using False by (simp add: m_def)
    show ?thesis
      unfolding y mm using assms(2) by (rule round_half_even_error)
  qed
  have pk: "0 < (2::real) powi k"
    by simp
  have ylo: "2 ^ 52 \<le> ?y"
  proof -
    have "(2::real) ^ 52 * 2 powi k = 2 powi e"
      by (simp add: k_def power_int_diff)
    with ex(1) have "(2::real) ^ 52 * 2 powi k \<le> ?x"
      by (simp only:)
    then show ?thesis
      using pk by (simp only: pos_le_divide_eq)
  qed
  have yhi: "?y < 2 ^ 53"
  proof -
    have "(2::real) ^ 53 * 2 powi k = 2 powi (e + 1)"
      by (simp add: k_def power_int_diff power_int_add)
    with ex(2) have "?x < (2::real) ^ 53 * 2 powi k"
      by (simp only:)
    then show ?thesis
      using pk by (simp only: pos_divide_less_eq)
  qed
  have "2 ^ 52 \<le> m"
    using near_int_bounds(1)[OF ym, of "2 ^ 52"] ylo by simp
  then show "2 ^ 52 \<le> fst (float_of_frac p q)"
    by (simp add: ff)
  have "m \<le> 2 ^ 53"
    using near_int_bounds(2)[OF ym, of "2 ^ 53"] yhi by simp
  then show "fst (float_of_frac p q) \<le> 2 ^ 53"
    by (simp add: ff)
  have "?x - float_value (m, k) = (?y - real_of_int m) * 2 powi k"
    by (simp add: float_value_def field_simps)
  then have "\<bar>?x - float_value (m, k)\<bar> = \<bar>?y - real_of_int m\<bar> * 2 powi k"
    by (simp add: abs_mult)
  also have "\<dots> \<le> 1 / 2 * 2 powi k"
    using ym pk by (intro mult_right_mono) simp_all
  finally show "\<bar>?x - float_value (float_of_frac p q)\<bar> \<le> 2 powi (snd (float_of_frac p q)) / 2"
    by (simp add: ff)
qed

text \<open>The percentages of the service's test, of a tie, and of a near tie.\<close>

lemma pct_2_of_3: "py_round (float_mul (py_truediv 2 3) (float_of_int 100)) 2 = (4691484174324859, - 46)"
  by code_simp

lemma pct_1_of_3: "py_round (float_mul (py_truediv 1 3) (float_of_int 100)) 2 = (4690780486883082, - 47)"
  by code_simp

lemma pct_0_of_3: "py_round (float_mul (py_truediv 0 3) (float_of_int 100)) 2 = (0, 0)"
  by code_simp

lemma pct_1_of_1: "py_round (float_mul (py_truediv 1 1) (float_of_int 100)) 2 = (7036874417766400, - 46)"
  by code_simp

lemma pct_0_of_1: "py_round (float_mul (py_truediv 0 1) (float_of_int 100)) 2 = (0, 0)"
  by code_simp

lemma pct_1_of_32: "py_round (float_mul (py_truediv 1 32) (float_of_int 100)) 2 = (7025615418697974, - 51)"
  by code_simp

lemma pct_1_of_20000:
  "py_round (float_mul (py_truediv 1 20000) (float_of_int 100)) 2 = (5764607523034235, - 59)"
  by code_simp

lemma pct_values:
  "\<bar>float_value (4691484174324859, - 46) - 66.67\<bar> < 1 / 10 ^ 14"
  "\<bar>float_value (4690780486883082, - 47) - 33.33\<bar> < 1 / 10 ^ 14"
  "float_value (7036874417766400, - 46) = 100"
  "float_value (0, 0) = 0"
  "\<bar>float_value (7025615418697974, - 51) - 3.12\<bar> < 1 / 10 ^ 15"
  "\<bar>float_value (5764607523034235, - 59) - 0.01\<bar> < 1 / 10 ^ 17"
  by (simp_all add: float_value_def power_int_minus field_simps)


section \<open>Poll results\<close>

lemma option_results_loop_eq:
  "option_results_loop s tot opts acc =
     acc @ map (\<lambda>x. \<lparr>or_option_id = o_id x, or_text = o_text x,
                       vote_count = int (length (filter (\<lambda>v. v_option_id v = o_id x) (votes s))),
                       percentage =
                         (if tot > 0
                          then float_value (py_round (float_mul
                                 (py_truediv (int (length (filter (\<lambda>v. v_option_id v = o_id x) (votes s)))) tot)
                                 (float_of_int 100)) 2)
                          else 0)\<rparr>) opts"
  by (induction opts arbitrary: acc) (simp_all add: Let_def)

text \<open>
  Claim C2. For a poll that exists, \<open>get_poll_results\<close> returns a result whose
  \<open>total_votes\<close> is the number of votes stored for the poll, and whose option list has,
  for each option of the poll in stored order, the number of votes naming that option
  and a percentage that is the float \<open>round(vote_count / total_votes * 100, 2)\<close> when
  \<open>total_votes\<close> is positive and 0 otherwise. Each percentage is computed from its own
  option's count and the total only: nothing adjusts the list to sum to 100. With no
  votes every percentage is 0.
\<close>

theorem get_poll_results_percentages:
  assumes "session_get_poll s pid = Some p"
  shows "\<exists>r. get_poll_results s pid = Some r \<and>
     total_votes r = int (length (filter (\<lambda>v. v_poll_id v = pid) (votes s))) \<and>
     pr_options r =
       map (\<lambda>x. \<lparr>or_option_id = o_id x, or_text = o_text x,
                  vote_count = int (length (filter (\<lambda>v. v_option_id v = o_id x) (votes s))),
                  percentage =
                    (if total_votes r > 0
                     then float_value (py_round (float_mul
                            (py_truediv (int (length (filter (\<lambda>v. v_option_id v = o_id x) (votes s))))
                               (total_votes r))
                            (float_of_int 100)) 2)
                     else 0)\<rparr>)
           (filter (\<lambda>x. o_poll_id x = pid) (options s)) \<and>
     (total_votes r = 0 \<longrightarrow> (\<forall>x \<in> set (pr_options r). percentage x = 0))"
  using assms by (auto simp: get_poll_results_def option_results_loop_eq Let_def)

text \<open>
  On the poll of the service's test the percentages are the floats 66.67, 33.33, 0 and 0;
  on the same poll without votes they are all 0. Three options with one vote each get
  the float 33.33 each, which add up to less than 100.
\<close>

lemma three_way_tie_below_100:
  "float_value (py_round (float_mul (py_truediv 1 3) (float_of_int 100)) 2) * 3 < 100"
  by (simp add: pct_1_of_3 float_value_def power_int_minus field_simps)


theorem get_poll_results_percentages_witness:
  "session_get_poll survey_store 1 =
     Some \<lparr>p_id = 1, title = ''Favorite Programming Language'',
           description = ''Choose your favorite programming language'',
           creator_id = 1, is_active = True\<rparr> \<and>
   (\<exists>r. get_poll_results survey_store 1 = Some r \<and> total_votes r = 3 \<and>
      map vote_count (pr_options r) = [2, 1, 0, 0] \<and>
      map percentage (pr_options r) =
        [float_value (4691484174324859, - 46), float_value (4690780486883082, - 47), 0, 0]) \<and>
   (\<exists>r. get_poll_results (survey_store\<lparr>votes := []\<rparr>) 1 = Some r \<and> total_votes r = 0 \<and>
      map percentage (pr_options r) = [0, 0, 0, 0])"
proof -
  have p: "session_get_poll survey_store 1 =
     Some \<lparr>p_id = 1, title = ''Favorite Programming Language'',
           description = ''Choose your favorite programming language'',
           creator_id = 1, is_active = True\<rparr>"
    by (simp add: session_get_poll_def survey_store_def)
  have q: "session_get_poll (survey_store\<lparr>votes := []\<rparr>) 1 =
     Some \<lparr>p_id = 1, title = ''Favorite Programming Language'',
           description = ''Choose your favorite programming language'',
           creator_id = 1, is_active = True\<rparr>"
    by (simp add: session_get_poll_def survey_store_def)
  from get_poll_results_percentages [OF p]
  have 1: "\<exists>r. get_poll_results survey_store 1 = Some r \<and> total_votes r = 3 \<and>
      map vote_count (pr_options r) = [2, 1, 0, 0] \<and>
      map percentage (pr_options r) =
        [float_value (4691484174324859, - 46), float_value (4690780486883082, - 47), 0, 0]"
    by (auto simp: survey_store_def pct_2_of_3 pct_1_of_3 pct_0_of_3 pct_values)
  from get_poll_results_percentages [OF q]
  have 2: "\<exists>r. get_poll_results (survey_store\<lparr>votes := []\<rparr>) 1 = Some r \<and>
      total_votes r = 0 \<and> map percentage (pr_options r) = [0, 0, 0, 0]"
    by (auto simp: survey_store_def)
  from p 1 2 show ?thesis
    by blast
qed

lemma distinct_map_eq:
  "distinct (map f xs) \<Longrightarrow> x \<in> set xs \<Longrightarrow> y \<in> set xs \<Longrightarrow> f x = f y \<Longrightarrow> x = y"
  by (meson distinct_map inj_on_eq_iff)

lemma count_id_filter:
  assumes "distinct (map f xs)"
  shows "(\<Sum>x\<leftarrow>filter P xs. if k = f x then 1 else 0) =
         (if \<exists>x \<in> set xs. f x = k \<and> P x then 1 else (0::int))"
  using assms
proof (induction xs)
  case Nil
  show ?case by simp
next
  case (Cons a xs)
  then show ?case by (auto simp: image_iff)
qed

lemma sum_count_Cons:
  "(\<Sum>x\<leftarrow>xs. int (length (filter (\<lambda>v. g v = f x) (v # vs)))) =
   (\<Sum>x\<leftarrow>xs. if g v = f x then 1 else 0) + (\<Sum>x\<leftarrow>xs. int (length (filter (\<lambda>v. g v = f x) vs)))"
  by (induction xs) auto

lemma votes_partition:
  assumes d: "distinct (map o_id opts)"
    and r: "\<forall>v \<in> set vs. \<exists>x \<in> set opts. o_id x = v_option_id v \<and> o_poll_id x = v_poll_id v"
  shows "int (length (filter (\<lambda>v. v_poll_id v = pid) vs)) =
         (\<Sum>x\<leftarrow>filter (\<lambda>x. o_poll_id x = pid) opts.
            int (length (filter (\<lambda>v. v_option_id v = o_id x) vs)))"
  using r
proof (induction vs)
  case Nil
  show ?case by simp
next
  case (Cons v vs)
  from Cons.prems obtain x0 where x0: "x0 \<in> set opts" "o_id x0 = v_option_id v"
      "o_poll_id x0 = v_poll_id v"
    by auto
  have iff: "(\<exists>x \<in> set opts. o_id x = v_option_id v \<and> o_poll_id x = pid) \<longleftrightarrow> v_poll_id v = pid"
  proof
    assume "\<exists>x \<in> set opts. o_id x = v_option_id v \<and> o_poll_id x = pid"
    then obtain x where x: "x \<in> set opts" "o_id x = v_option_id v" "o_poll_id x = pid"
      by blast
    with x0 d have "x = x0"
      by (intro distinct_map_eq[of o_id opts]) simp_all
    with x x0 show "v_poll_id v = pid" by simp
  next
    assume "v_poll_id v = pid"
    with x0 show "\<exists>x \<in> set opts. o_id x = v_option_id v \<and> o_poll_id x = pid" by blast
  qed
  have split: "(\<Sum>x\<leftarrow>filter (\<lambda>x. o_poll_id x = pid) opts.
            int (length (filter (\<lambda>v. v_option_id v = o_id x) (v # vs)))) =
        (\<Sum>x\<leftarrow>filter (\<lambda>x. o_poll_id x = pid) opts. if v_option_id v = o_id x then 1 else 0) +
        (\<Sum>x\<leftarrow>filter (\<lambda>x. o_poll_id x = pid) opts.
            int (length (filter (\<lambda>v. v_option_id v = o_id x) vs)))"
    by (rule sum_count_Cons)
  have one: "(\<Sum>x\<leftarrow>filter (\<lambda>x. o_poll_id x = pid) opts. if v_option_id v = o_id x then 1 else 0) =
        (if v_poll_id v = pid then 1 else (0::int))"
    using count_id_filter[OF d, where P = "\<lambda>x. o_poll_id x = pid" and k = "v_option_id v"] iff by simp
  have IH: "int (length (filter (\<lambda>v. v_poll_id v = pid) vs)) =
         (\<Sum>x\<leftarrow>filter (\<lambda>x. o_poll_id x = pid) opts.
            int (length (filter (\<lambda>v. v_option_id v = o_id x) vs)))"
    using Cons by simp
  have "int (length (filter (\<lambda>v. v_poll_id v = pid) (v # vs))) =
        (if v_poll_id v = pid then 1 else 0) + int (length (filter (\<lambda>v. v_poll_id v = pid) vs))"
    by simp
  also have "\<dots> =
        (\<Sum>x\<leftarrow>filter (\<lambda>x. o_poll_id x = pid) opts. if v_option_id v = o_id x then 1 else 0) +
        (\<Sum>x\<leftarrow>filter (\<lambda>x. o_poll_id x = pid) opts.
            int (length (filter (\<lambda>v. v_option_id v = o_id x) vs)))"
    by (simp only: one IH)
  also have "\<dots> = (\<Sum>x\<leftarrow>filter (\<lambda>x. o_poll_id x = pid) opts.
            int (length (filter (\<lambda>v. v_option_id v = o_id x) (v # vs))))"
    by (rule split[symmetric])
  finally show ?case .
qed

text \<open>
  Claim C9. In every state reachable from the empty store, the \<open>total_votes\<close> that
  \<open>get_poll_results\<close> returns for an existing poll is the sum of the \<open>vote_count\<close>s
  of the options it returns, although each count is taken over all votes naming the
  option, without looking at the votes' poll. The proof uses the invariant that option
  ids are unique and that the option of every stored vote belongs to the vote's poll.
\<close>

theorem total_votes_is_sum_of_counts:
  assumes "get_poll_results (run empty_store ops) pid = Some r"
  shows "total_votes r = sum_list (map vote_count (pr_options r))"
proof -
  let ?s = "run empty_store ops"
  have inv: "store_inv ?s"
    by (rule reachable_inv)
  then have part: "int (length (filter (\<lambda>v. v_poll_id v = pid) (votes ?s))) =
         (\<Sum>x\<leftarrow>filter (\<lambda>x. o_poll_id x = pid) (options ?s).
            int (length (filter (\<lambda>v. v_option_id v = o_id x) (votes ?s))))"
    by (intro votes_partition) (auto simp: store_inv_def)
  from assms show ?thesis
    by (auto simp: get_poll_results_def option_results_loop_eq Let_def comp_def part
        split: option.splits)
qed

theorem total_votes_is_sum_of_counts_witness:
  "get_poll_results (run empty_store demo_ops) 1 =
     Some \<lparr>pr_poll_id = 1, pr_title = ''Language'', pr_description = [], total_votes = 1,
           pr_options =
             [\<lparr>or_option_id = 1, or_text = ''Python'', vote_count = 1, percentage = 100\<rparr>,
              \<lparr>or_option_id = 2, or_text = ''Java'', vote_count = 0, percentage = 0\<rparr>]\<rparr> \<and>
   total_votes \<lparr>pr_poll_id = 1, pr_title = ''Language'', pr_description = [], total_votes = 1,
           pr_options =
             [\<lparr>or_option_id = 1, or_text = ''Python'', vote_count = 1, percentage = 100\<rparr>,
              \<lparr>or_option_id = 2, or_text = ''Java'', vote_count = 0, percentage = 0\<rparr>]\<rparr> =
   sum_list (map vote_count
             [\<lparr>or_option_id = 1, or_text = ''Python'', vote_count = 1, percentage = 100\<rparr>,
              \<lparr>or_option_id = 2, or_text = ''Java'', vote_count = 0, percentage = 0\<rparr>])"
proof -
  have g: "get_poll_results (run empty_store demo_ops) 1 =
     Some \<lparr>pr_poll_id = 1, pr_title = ''Language'', pr_description = [], total_votes = 1,
           pr_options =
             [\<lparr>or_option_id = 1, or_text = ''Python'', vote_count = 1, percentage = 100\<rparr>,
              \<lparr>or_option_id = 2, or_text = ''Java'', vote_count = 0, percentage = 0\<rparr>]\<rparr>"
    by (simp add: demo_store_run)
       (simp add: get_poll_results_def session_get_poll_def demo_store_def Let_def
          pct_1_of_1 pct_0_of_1 pct_values)
  from total_votes_is_sum_of_counts [OF g] g show ?thesis
    by simp
qed


section \<open>Signing in\<close>

lemma create_user_cases:
  "create_user s name mail =
     (if \<exists>u \<in> set (users s). username u = name then (s, Inl UsernameExists)
      else if \<exists>u \<in> set (users s). email u = mail then (s, Inl EmailExists)
      else (s\<lparr>users := users s @
                [\<lparr>u_id = fresh_id (map u_id (users s)), username = name, email = mail\<rparr>]\<rparr>,
            Inr \<lparr>u_id = fresh_id (map u_id (users s)), username = name, email = mail\<rparr>))"
  by (auto simp: create_user_def insert_user_def first_None_iff filter_empty_conv Let_def
      split: option.splits)

text \<open>
  Claim C8, as amended. For a login attempt that passes the form's validation (user name
  and email non-empty after stripping, the email containing "@" and "."): if a user with
  that user name exists, the login succeeds exactly when the stored email and the given
  one are equal after \<open>str.lower\<close>; for emails of ASCII characters, where \<open>str.lower\<close>
  is the lower-casing of the letters A to Z, that is exactly when they are equal up to
  the case of their letters. Whether it succeeds or is rejected the store is unchanged,
  so no user is created. If no user has that user name, then a user with that name and
  email is created and signed in when no stored user has that email, and otherwise the
  login is rejected ("Email already registered with different username") with the store
  and the session unchanged.
\<close>

theorem handle_login_policy:
  assumes "name \<noteq> []" and "mail \<noteq> []" and "CHR ''@'' \<in> set mail" and "CHR ''.'' \<in> set mail"
  shows "(\<forall>u. get_user_by_username s name = Some u \<longrightarrow>
            handle_login lower s sess name mail =
              (if lower (email u) = lower mail
               then (s, \<lparr>sess_user_id = Some (u_id u), sess_username = Some (username u)\<rparr>,
                     WelcomeBack)
               else (s, sess, DifferentEmail))) \<and>
         (\<forall>u. (\<forall>x. ascii_text x \<longrightarrow> lower x = ascii_lower x) \<and>
              get_user_by_username s name = Some u \<and> ascii_text (email u) \<and> ascii_text mail \<longrightarrow>
            handle_login lower s sess name mail =
              (if ascii_lower (email u) = ascii_lower mail
               then (s, \<lparr>sess_user_id = Some (u_id u), sess_username = Some (username u)\<rparr>,
                     WelcomeBack)
               else (s, sess, DifferentEmail))) \<and>
         (get_user_by_username s name = None \<longrightarrow>
            handle_login lower s sess name mail =
              (if \<exists>u \<in> set (users s). email u = mail then (s, sess, EmailRegistered)
               else (s\<lparr>users := users s @
                         [\<lparr>u_id = fresh_id (map u_id (users s)), username = name, email = mail\<rparr>]\<rparr>,
                     \<lparr>sess_user_id = Some (fresh_id (map u_id (users s))),
                      sess_username = Some name\<rparr>,
                     AccountCreated)))"
proof (intro conjI allI impI)
  fix u assume "get_user_by_username s name = Some u"
  with assms show "handle_login lower s sess name mail =
              (if lower (email u) = lower mail
               then (s, \<lparr>sess_user_id = Some (u_id u), sess_username = Some (username u)\<rparr>,
                     WelcomeBack)
               else (s, sess, DifferentEmail))"
    by (simp add: handle_login_def)
next
  fix u
  assume a: "(\<forall>x. ascii_text x \<longrightarrow> lower x = ascii_lower x) \<and>
      get_user_by_username s name = Some u \<and> ascii_text (email u) \<and> ascii_text mail"
  then have "lower (email u) = ascii_lower (email u)" "lower mail = ascii_lower mail"
    by simp_all
  with assms a show "handle_login lower s sess name mail =
              (if ascii_lower (email u) = ascii_lower mail
               then (s, \<lparr>sess_user_id = Some (u_id u), sess_username = Some (username u)\<rparr>,
                     WelcomeBack)
               else (s, sess, DifferentEmail))"
    by (simp add: handle_login_def)
next
  assume n: "get_user_by_username s name = None"
  then have "\<not> (\<exists>u \<in> set (users s). username u = name)"
    by (simp add: get_user_by_username_def first_None_iff filter_empty_conv)
  with assms n show "handle_login lower s sess name mail =
              (if \<exists>u \<in> set (users s). email u = mail then (s, sess, EmailRegistered)
               else (s\<lparr>users := users s @
                         [\<lparr>u_id = fresh_id (map u_id (users s)), username = name, email = mail\<rparr>]\<rparr>,
                     \<lparr>sess_user_id = Some (fresh_id (map u_id (users s))),
                      sess_username = Some name\<rparr>,
                     AccountCreated))"
    by (simp add: handle_login_def create_user_cases)
qed

text \<open>
  The claim as first stated fails twice on the example store: no user is called carol,
  yet a login as carol with alice's email creates nobody and signs nobody in; and bob's
  stored email, given again letter for letter, is turned away by the validation.
\<close>

theorem handle_login_policy_counterexample:
  "run empty_store demo_ops = demo_store \<and>
   get_user_by_username demo_store ''carol'' = None \<and>
   handle_login ascii_lower demo_store no_session ''carol'' ''alice@example.com'' =
     (demo_store, no_session, EmailRegistered) \<and>
   get_user_by_username demo_store ''bob'' =
     Some \<lparr>u_id = 2, username = ''bob'', email = ''bob@localhost''\<rparr> \<and>
   handle_login ascii_lower demo_store no_session ''bob'' ''bob@localhost'' =
     (demo_store, no_session, InvalidEmail)"
  by (simp add: demo_store_run)
     (simp add: handle_login_def get_user_by_username_def create_user_def demo_store_def)

theorem handle_login_policy_witness:
  "handle_login ascii_lower demo_store no_session ''alice'' ''Alice@Example.COM'' =
     (demo_store, \<lparr>sess_user_id = Some 1, sess_username = Some ''alice''\<rparr>, WelcomeBack) \<and>
   handle_login ascii_lower demo_store no_session ''alice'' ''alice@example.org'' =
     (demo_store, no_session, DifferentEmail) \<and>
   handle_login ascii_lower demo_store no_session ''carol'' ''carol@example.com'' =
     (demo_store\<lparr>users := users demo_store @
         [\<lparr>u_id = 3, username = ''carol'', email = ''carol@example.com''\<rparr>]\<rparr>,
      \<lparr>sess_user_id = Some 3, sess_username = Some ''carol''\<rparr>, AccountCreated)"
proof -
  have a: "get_user_by_username demo_store ''alice'' =
      Some \<lparr>u_id = 1, username = ''alice'', email = ''alice@example.com''\<rparr>"
    by (simp add: get_user_by_username_def demo_store_def)
  have c: "get_user_by_username demo_store ''carol'' = None"
    by (simp add: get_user_by_username_def demo_store_def)
  have lo: "\<forall>x. ascii_text x \<longrightarrow> ascii_lower x = ascii_lower x"
    by simp
  have t0: "ascii_text (email \<lparr>u_id = 1, username = ''alice'', email = ''alice@example.com''\<rparr>)"
    by code_simp
  have t1: "ascii_text ''Alice@Example.COM''"
    by code_simp
  have t2: "ascii_text ''alice@example.org''"
    by code_simp
  have l1: "ascii_lower (email \<lparr>u_id = 1, username = ''alice'', email = ''alice@example.com''\<rparr>) =
      ascii_lower ''Alice@Example.COM''"
    by code_simp
  have l2: "ascii_lower (email \<lparr>u_id = 1, username = ''alice'', email = ''alice@example.com''\<rparr>) \<noteq>
      ascii_lower ''alice@example.org''"
    by code_simp
  have 1: "handle_login ascii_lower demo_store no_session ''alice'' ''Alice@Example.COM'' =
     (demo_store, \<lparr>sess_user_id = Some 1, sess_username = Some ''alice''\<rparr>, WelcomeBack)"
    using handle_login_policy [of "''alice''" "''Alice@Example.COM''" demo_store ascii_lower no_session,
        THEN conjunct2, THEN conjunct1, rule_format,
        of "\<lparr>u_id = 1, username = ''alice'', email = ''alice@example.com''\<rparr>"]
      lo a t0 t1 l1 by simp
  have 2: "handle_login ascii_lower demo_store no_session ''alice'' ''alice@example.org'' =
     (demo_store, no_session, DifferentEmail)"
    using handle_login_policy [of "''alice''" "''alice@example.org''" demo_store ascii_lower no_session,
        THEN conjunct2, THEN conjunct1, rule_format,
        of "\<lparr>u_id = 1, username = ''alice'', email = ''alice@example.com''\<rparr>"]
      lo a t0 t2 l2 by simp
  have 3: "handle_login ascii_lower demo_store no_session ''carol'' ''carol@example.com'' =
     (demo_store\<lparr>users := users demo_store @
         [\<lparr>u_id = 3, username = ''carol'', email = ''carol@example.com''\<rparr>]\<rparr>,
      \<lparr>sess_user_id = Some 3, sess_username = Some ''carol''\<rparr>, AccountCreated)"
    using handle_login_policy [of "''carol''" "''carol@example.com''" demo_store ascii_lower no_session]
      c by (simp add: demo_store_def)
  from 1 2 3 show ?thesis
    by blast
qed

end
